theory Spec2Isabelle
  imports Main
begin

section \<open>JavaScript values and the object store\<close>

text \<open>
  The library is JavaScript: its parameters are dynamically typed, and arrays and objects
  are shared by reference. Values are therefore primitives or references into a store of
  cells, and every function passes the store along, so that a write to an array a caller
  owns would be visible as a changed cell.

  Numbers are the integer-valued numbers, the two infinities and NaN; fractional numbers,
  and integers too large to be printed in plain decimal notation, are outside the model.
\<close>

datatype jsnum = Fin int | PosInf | NegInf | NaN

type_synonym addr = nat

datatype jsval =
    Undefined
  | Null
  | Bool bool
  | Num jsnum
  | Str string
  | Fun string  \<comment> \<open>a function, with its source text\<close>
  | Ref addr    \<comment> \<open>an array or an object, by reference\<close>

datatype cell = Arr "jsval list" | Obj "(string \<times> jsval) list"

type_synonym heap = "cell list"

definition lookup :: "heap \<Rightarrow> addr \<Rightarrow> cell option" where
  "lookup h a = (if a < length h then Some (h ! a) else None)"

text \<open>The elements of the array a value refers to, and the entries of the object.\<close>

definition elems :: "heap \<Rightarrow> jsval \<Rightarrow> jsval list option" where
  "elems h v = (case v of
      Ref a \<Rightarrow> (case lookup h a of Some (Arr xs) \<Rightarrow> Some xs | _ \<Rightarrow> None)
    | _ \<Rightarrow> None)"

definition entries :: "heap \<Rightarrow> jsval \<Rightarrow> (string \<times> jsval) list option" where
  "entries h v = (case v of
      Ref a \<Rightarrow> (case lookup h a of Some (Obj kvs) \<Rightarrow> Some kvs | _ \<Rightarrow> None)
    | _ \<Rightarrow> None)"

text \<open>Property access \<open>o.k\<close>: a key that is absent reads as undefined.\<close>

definition field :: "(string \<times> jsval) list \<Rightarrow> string \<Rightarrow> jsval" where
  "field kvs k = (case map_of kvs k of Some v \<Rightarrow> v | None \<Rightarrow> Undefined)"

definition getProp :: "heap \<Rightarrow> jsval \<Rightarrow> string \<Rightarrow> jsval" where
  "getProp h v k = (case entries h v of Some kvs \<Rightarrow> field kvs k | None \<Rightarrow> Undefined)"


section \<open>Coercions of the language\<close>

definition digitChar :: "nat \<Rightarrow> char" where
  "digitChar d = char_of (48 + d)"

fun showNat :: "nat \<Rightarrow> string" where
  "showNat n = (if n < 10 then [digitChar n] else showNat (n div 10) @ [digitChar (n mod 10)])"

declare showNat.simps [simp del]

definition showInt :: "int \<Rightarrow> string" where
  "showInt i = (if i < 0 then CHR ''-'' # showNat (nat (- i)) else showNat (nat i))"

text \<open>Number to string, as a template literal \<open>`${n}`\<close> does it.\<close>

fun numToString :: "jsnum \<Rightarrow> string" where
  "numToString (Fin i) = showInt i"
| "numToString PosInf = ''Infinity''"
| "numToString NegInf = ''-Infinity''"
| "numToString NaN = ''NaN''"

fun join :: "string \<Rightarrow> string list \<Rightarrow> string" where
  "join sep [] = []"
| "join sep [x] = x"
| "join sep (x # y # ys) = x @ sep @ join sep (y # ys)"

text \<open>
  ToString. An array prints as its elements joined by commas, null and undefined elements
  as nothing; a plain object as \<open>[object Object]\<close>. The first parameter bounds the nesting
  of arrays that is followed; \<open>toString\<close> gives it the size of the store, which every
  nesting without a cycle stays below. Objects are plain data: none overrides \<open>toString\<close>
  or \<open>valueOf\<close>.
\<close>

fun toStringF :: "nat \<Rightarrow> heap \<Rightarrow> jsval \<Rightarrow> string" where
  "toStringF n h Undefined = ''undefined''"
| "toStringF n h Null = ''null''"
| "toStringF n h (Bool b) = (if b then ''true'' else ''false'')"
| "toStringF n h (Num x) = numToString x"
| "toStringF n h (Str s) = s"
| "toStringF n h (Fun src) = src"
| "toStringF 0 h (Ref a) = []"
| "toStringF (Suc n) h (Ref a) = (case lookup h a of
       Some (Arr xs) \<Rightarrow>
         join '','' (map (\<lambda>x. if x = Undefined \<or> x = Null then [] else toStringF n h x) xs)
     | Some (Obj kvs) \<Rightarrow> ''[object Object]''
     | None \<Rightarrow> [])"

definition toString :: "heap \<Rightarrow> jsval \<Rightarrow> string" where
  "toString h v = toStringF (length h) h v"

text \<open>Truthiness, as \<open>if (v)\<close> tests it.\<close>

fun truthy :: "jsval \<Rightarrow> bool" where
  "truthy Undefined = False"
| "truthy Null = False"
| "truthy (Bool b) = b"
| "truthy (Num x) = (x \<noteq> Fin 0 \<and> x \<noteq> NaN)"
| "truthy (Str s) = (s \<noteq> [])"
| "truthy (Fun src) = True"
| "truthy (Ref a) = True"

text \<open>\<open>Math.min\<close> of two numbers: NaN if either is NaN.\<close>

fun mathMin :: "jsnum \<Rightarrow> jsnum \<Rightarrow> jsnum" where
  "mathMin NaN y = NaN"
| "mathMin x NaN = NaN"
| "mathMin NegInf y = NegInf"
| "mathMin x NegInf = NegInf"
| "mathMin PosInf y = y"
| "mathMin x PosInf = x"
| "mathMin (Fin a) (Fin b) = Fin (min a b)"


section \<open>The host and the process\<close>

text \<open>
  What the library asks of its host is a parameter of the model: the file system
  (\<open>nfile.exists\<close>, \<open>nfile.eachLine\<close>), the platform test \<open>nos.isPlatform\<close>, Node's
  \<open>path.join\<close>, the engine's conversion of a string to a number, and what a child
  process does once it is launched. Lines of text are ASCII, and a file that is read
  line by line can be read.
\<close>

record call =
  prog :: string
  argv :: jsval
  optv :: jsval
  store :: heap

datatype outcome = CannotSpawn | Exited int string string

record world =
  fileExists :: "string \<Rightarrow> bool"
  pathJoin :: "string \<Rightarrow> string \<Rightarrow> string"
  isPlatform :: "string \<Rightarrow> bool"
  eachLine :: "string \<Rightarrow> string list"
  stringToNumber :: "string \<Rightarrow> jsnum"
  spawn :: "call \<Rightarrow> outcome"

record info =
  cores :: nat

text \<open>
  The state of the process: the object store, the cache of the memoized
  \<open>_machineInformation\<close>, the files read line by line so far, and the requests handed to
  the runner so far (each with the store as it was then).
\<close>

record state =
  heap :: heap
  memo :: "info option"
  reads :: "string list"
  spawned :: "call list"

datatype error =
    Error string                        \<comment> \<open>\<open>new Error(message)\<close>\<close>
  | SpawnError
  | ExecutionError string int string string
      \<comment> \<open>message, exit code, stdout, stderr\<close>

definition new :: "state \<Rightarrow> cell \<Rightarrow> jsval \<times> state" where
  "new st c = (Ref (length (heap st)), st\<lparr>heap := heap st @ [c]\<rparr>)"

text \<open>\<open>Array.prototype.push\<close> writes into the array itself.\<close>

definition push :: "state \<Rightarrow> jsval \<Rightarrow> jsval \<Rightarrow> state" where
  "push st arr v = (case arr of
      Ref a \<Rightarrow> (case lookup (heap st) a of
                  Some (Arr xs) \<Rightarrow> st\<lparr>heap := (heap st)[a := Arr (xs @ [v])]\<rparr>
                | _ \<Rightarrow> st)
    | _ \<Rightarrow> st)"

text \<open>\<open>Array.prototype.concat\<close> with an array argument builds a new array.\<close>

definition concat_arr :: "state \<Rightarrow> jsval \<Rightarrow> jsval \<Rightarrow> jsval \<times> state" where
  "concat_arr st arr other =
     new st (Arr ((case elems (heap st) arr of Some xs \<Rightarrow> xs | None \<Rightarrow> [])
                @ (case elems (heap st) other of Some ys \<Rightarrow> ys | None \<Rightarrow> [other])))"

definition toNumber :: "world \<Rightarrow> heap \<Rightarrow> jsval \<Rightarrow> jsnum" where
  "toNumber w h v = (case v of
      Undefined \<Rightarrow> NaN
    | Null \<Rightarrow> Fin 0
    | Bool b \<Rightarrow> Fin (if b then 1 else 0)
    | Num x \<Rightarrow> x
    | _ \<Rightarrow> stringToNumber w (toString h v))"


section \<open>The helpers of lodash and nami-utils\<close>

definition isUndefined :: "jsval \<Rightarrow> bool" where
  "isUndefined v = (v = Undefined)"

definition isNull :: "jsval \<Rightarrow> bool" where
  "isNull v = (v = Null)"

text \<open>
  Modelled from the spec: \<open>_.isReallyObject\<close> of nami-utils, whose source is not part of
  the repository. A value is classified as options if it is a plain keyed structure;
  strings, arrays and every other value are not.
\<close>

definition isReallyObject :: "heap \<Rightarrow> jsval \<Rightarrow> bool" where
  "isReallyObject h v = (entries h v \<noteq> None)"

fun setDefault :: "(string \<times> jsval) list \<Rightarrow> string \<times> jsval \<Rightarrow> (string \<times> jsval) list" where
  "setDefault [] (k, d) = [(k, d)]"
| "setDefault ((k', v) # kvs) (k, d) =
     (if k' = k then (k', if v = Undefined then d else v) # kvs
      else (k', v) # setDefault kvs (k, d))"

text \<open>The entries of an object, and none for any other value.\<close>

definition entriesOf :: "heap \<Rightarrow> jsval \<Rightarrow> (string \<times> jsval) list" where
  "entriesOf h v = (case entries h v of Some kvs \<Rightarrow> kvs | None \<Rightarrow> [])"

definition withDefaults ::
  "(string \<times> jsval) list \<Rightarrow> (string \<times> jsval) list \<Rightarrow> (string \<times> jsval) list" where
  "withDefaults kvs ds = foldl setDefault kvs ds"

text \<open>
  Modelled from the spec: \<open>_.opts\<close> of nami-utils, whose source is not part of the
  repository. The result is a new object with the entries of the options given, and the
  default for every key that they leave undefined; without an options object it holds the
  defaults. The object given is left as it is. The object literal of the defaults is
  passed as its list of entries.
\<close>

definition opts :: "state \<Rightarrow> jsval \<Rightarrow> (string \<times> jsval) list \<Rightarrow> jsval \<times> state" where
  "opts st options defaults = new st (Obj (withDefaults (entriesOf (heap st) options) defaults))"

text \<open>
  \<open>_.toArray\<close> of lodash: a new array holding the elements of an array, the characters of
  a string, the values of an object, and nothing for any other value.
\<close>

definition arrayOf :: "heap \<Rightarrow> jsval \<Rightarrow> jsval list" where
  "arrayOf h v = (case v of
      Str s \<Rightarrow> map (\<lambda>c. Str [c]) s
    | Ref a \<Rightarrow> (case lookup h a of
                  Some (Arr xs) \<Rightarrow> xs
                | Some (Obj kvs) \<Rightarrow> map snd kvs
                | None \<Rightarrow> [])
    | _ \<Rightarrow> [])"

definition toArray :: "state \<Rightarrow> jsval \<Rightarrow> jsval \<times> state" where
  "toArray st v = new st (Arr (arrayOf (heap st) v))"


section \<open>The runner\<close>

text \<open>
  Modelled from the spec: \<open>logExec\<close> of common-utils, the Command Runner, whose source is
  not part of the repository. It launches the program once and waits for it; exit code 0
  returns the captured standard output; any other exit code fails with an ExecutionError
  carrying the exit code and both captured outputs, with the message
  \<open>Program exited with exit code <code>\<close>; a program that cannot be found or
  started fails with a SpawnError. It writes to no array or object it is given. The
  lines written to a logger are not part of the model.
\<close>

fun exitResult :: "outcome \<Rightarrow> error + string" where
  "exitResult CannotSpawn = Inl SpawnError"
| "exitResult (Exited code out err) =
     (if code = 0 then Inr out
      else Inl (ExecutionError (''Program exited with exit code '' @ showInt code) code out err))"

definition logExec :: "world \<Rightarrow> state \<Rightarrow> string \<Rightarrow> jsval \<Rightarrow> jsval \<Rightarrow> (error + string) \<times> state" where
  "logExec w st cmd args options =
     (let c = \<lparr>prog = cmd, argv = args, optv = options, store = heap st\<rparr>
      in (exitResult (spawn w c), st\<lparr>spawned := spawned st @ [c]\<rparr>))"


section \<open>index.js\<close>

text \<open>
  \<open>_findConfigureScript\<close>. \<open>_.find\<close> returns the first script whose path exists, or
  undefined; \<open>_.isEmpty\<close> holds of undefined and of the empty string.
\<close>

definition findConfigureScript :: "world \<Rightarrow> string \<Rightarrow> error + string" where
  "findConfigureScript w dir =
     (let wellKnownScripts = [''configure'', ''config''];
          configureScript = find (\<lambda>script. fileExists w (pathJoin w dir script)) wellKnownScripts;
          notFound = Error (''Cannot find any of '' @ join '', '' wellKnownScripts @ '' under '' @ dir)
      in case configureScript of
           None \<Rightarrow> Inl notFound
         | Some script \<Rightarrow> if script = [] then Inl notFound else Inr (pathJoin w dir script))"

text \<open>
  The block that \<open>runWithinEnvironment\<close>, \<open>configure\<close> and \<open>make\<close> each open with:
  \<^verbatim>\<open>if (_.isUndefined(options) && _.isReallyObject(args)) { options = args; args = []; }\<close>
\<close>

definition reinterpret :: "state \<Rightarrow> jsval \<Rightarrow> jsval \<Rightarrow> jsval \<times> jsval \<times> state" where
  "reinterpret st args options =
     (if isUndefined options \<and> isReallyObject (heap st) args
      then (let (a, st) = new st (Arr []) in (a, args, st))
      else (args, options, st))"

definition runWithinEnvironment ::
  "world \<Rightarrow> state \<Rightarrow> string \<Rightarrow> string \<Rightarrow> jsval \<Rightarrow> jsval \<Rightarrow> (error + string) \<times> state" where
  "runWithinEnvironment w st cwd cmd args options =
     (let (args, options, st) = reinterpret st args options;
          (env, st) = new st (Obj []);
          (options, st) = opts st options [(''cwd'', Str cwd), (''env'', env), (''logger'', Null)];
          (args, st) = (if isNull args \<or> isUndefined args then new st (Arr []) else (args, st))
      in logExec w st cmd args options)"

definition configure ::
  "world \<Rightarrow> state \<Rightarrow> string \<Rightarrow> jsval \<Rightarrow> jsval \<Rightarrow> (error + string) \<times> state" where
  "configure w st cwd args options =
     (let (args, options, st) = reinterpret st args options
      in case findConfigureScript w cwd of
           Inl e \<Rightarrow> (Inl e, st)
         | Inr configureScript \<Rightarrow> runWithinEnvironment w st cwd configureScript args options)"

definition patch ::
  "world \<Rightarrow> state \<Rightarrow> string \<Rightarrow> string \<Rightarrow> jsval \<Rightarrow> (error + string) \<times> state" where
  "patch w st cwd patchFile options =
     (let (options, st) = opts st options [(''patchLevel'', Num (Fin 0))];
          (args, st) = new st (Arr [Str (''-p'' @ toString (heap st) (getProp (heap st) options ''patchLevel'')),
                                    Str ''-i'', Str patchFile])
      in runWithinEnvironment w st cwd ''patch'' args options)"

text \<open>
  The pattern \<open>/^processor\s+:/\<close>: the line starts with \<open>processor\<close>, then one or more
  white space characters, then a colon.
\<close>

definition isSpace :: "char \<Rightarrow> bool" where
  "isSpace c = (c \<in> set [CHR 0x09, CHR 0x0A, CHR 0x0B, CHR 0x0C, CHR 0x0D, CHR '' ''])"

fun stripPrefix :: "string \<Rightarrow> string \<Rightarrow> string option" where
  "stripPrefix [] s = Some s"
| "stripPrefix (p # ps) [] = None"
| "stripPrefix (p # ps) (c # cs) = (if p = c then stripPrefix ps cs else None)"

definition matchesProcessor :: "string \<Rightarrow> bool" where
  "matchesProcessor line = (case stripPrefix ''processor'' line of
      None \<Rightarrow> False
    | Some rest \<Rightarrow> takeWhile isSpace rest \<noteq> [] \<and>
        (case dropWhile isSpace rest of [] \<Rightarrow> False | c # _ \<Rightarrow> c = CHR '':''))"

text \<open>
  \<open>_machineInformation\<close> is the function wrapped in \<open>_.memoize\<close>: once it has returned, the
  cache answers every later call. The object it returns never leaves the module, so it is
  kept as a record in the cache and not as a cell of the store.
\<close>

definition machineInformation :: "world \<Rightarrow> state \<Rightarrow> info \<times> state" where
  "machineInformation w st = (case memo st of
      Some cached \<Rightarrow> (cached, st)
    | None \<Rightarrow>
        (let info = \<lparr>cores = 2\<rparr>;
             (info, st) =
               (if isPlatform w ''linux''
                then (let n = fold (\<lambda>line n. if matchesProcessor line then n + 1 else n)
                                   (eachLine w ''/proc/cpuinfo'') 0;
                          st = st\<lparr>reads := reads st @ [''/proc/cpuinfo'']\<rparr>
                      in (info\<lparr>cores := max n (cores info)\<rparr>, st))
                else (info, st))
         in (info, st\<lparr>memo := Some info\<rparr>)))"

text \<open>
  \<open>make\<close>. The working directory is a required parameter, so \<open>arguments.length > 0\<close>
  holds at every call and the caller's arguments are always appended.
\<close>

definition make ::
  "world \<Rightarrow> state \<Rightarrow> string \<Rightarrow> jsval \<Rightarrow> jsval \<Rightarrow> (error + string) \<times> state" where
  "make w st cwd args options =
     (let (args, options, st) = reinterpret st args options;
          (options, st) = opts st options [(''supportsParallelBuild'', Bool True),
                                           (''maxParallelJobs'', Num PosInf)];
          (makeArgs, st) = new st (Arr []);
          st = (if truthy (getProp (heap st) options ''supportsParallelBuild'')
                then (let (info, st) = machineInformation w st
                      in push st makeArgs (Str (''--jobs='' @ numToString
                           (mathMin (Fin (int (cores info) + 1))
                                    (toNumber w (heap st) (getProp (heap st) options ''maxParallelJobs''))))))
                else st);
          (makeArgs, st) = (let (copy, st) = toArray st args in concat_arr st makeArgs copy)
      in runWithinEnvironment w st cwd ''make'' makeArgs options)"


text \<open>The functions the module exports, and a call to one of them.\<close>

datatype invocation =
    RunWithinEnvironment string string jsval jsval
  | Configure string jsval jsval
  | Patch string string jsval
  | Make string jsval jsval

fun invoke :: "world \<Rightarrow> state \<Rightarrow> invocation \<Rightarrow> (error + string) \<times> state" where
  "invoke w st (RunWithinEnvironment cwd cmd args options) = runWithinEnvironment w st cwd cmd args options"
| "invoke w st (Configure cwd args options) = configure w st cwd args options"
| "invoke w st (Patch cwd patchFile options) = patch w st cwd patchFile options"
| "invoke w st (Make cwd args options) = make w st cwd args options"

text \<open>A value of the store: a primitive, or a reference to one of its cells.\<close>

definition valid :: "heap \<Rightarrow> jsval \<Rightarrow> bool" where
  "valid h v = (case v of Ref a \<Rightarrow> a < length h | _ \<Rightarrow> True)"

definition reference :: "jsval \<Rightarrow> bool" where
  "reference v = (case v of Ref a \<Rightarrow> True | _ \<Rightarrow> False)"


section \<open>An example host and process\<close>

text \<open>
  A Linux host whose \<open>/proc/cpuinfo\<close> lists three processors (a fourth line lacks the
  white space before the colon), with a \<open>config\<close> script under \<open>/src\<close>, both scripts
  under \<open>/both\<close> and none under \<open>/empty\<close>; the program \<open>false\<close> exits with code 1,
  every other program with code 0.
\<close>

definition exampleHost :: world where
  "exampleHost = \<lparr>
     fileExists = (\<lambda>p. p = ''/src/config'' \<or> p = ''/both/configure'' \<or> p = ''/both/config''),
     pathJoin = (\<lambda>d s. d @ ''/'' @ s),
     isPlatform = (\<lambda>p. p = ''linux''),
     eachLine = (\<lambda>f. if f = ''/proc/cpuinfo''
        then [''processor'' @ [CHR 0x09] @ '': 0'', ''model name : cpu'', ''processor : 1'',
              ''processor: 2'', ''processor  : 3'']
        else []),
     stringToNumber = (\<lambda>s. NaN),
     spawn = (\<lambda>c. if prog c = ''false'' then Exited 1 ''out'' ''err'' else Exited 0 ''ok'' [])\<rparr>"

text \<open>The same host after \<open>/proc/cpuinfo\<close> has changed to a single processor.\<close>

definition changedHost :: world where
  "changedHost = exampleHost\<lparr>eachLine := (\<lambda>f. [''processor : 0''])\<rparr>"

text \<open>
  A process that has called nothing yet. Its store holds what a caller would have built:
  an argument list, an environment overlay, and three options objects, one of which
  refers to the overlay.
\<close>

definition exampleState :: state where
  "exampleState = \<lparr>
     heap = [Arr [Str ''install''],
             Obj [(''maxParallelJobs'', Num (Fin 1))],
             Obj [(''TEST'', Num (Fin 1))],
             Obj [(''env'', Ref 2), (''patchLevel'', Num (Fin 1))],
             Obj [(''supportsParallelBuild'', Bool False)]],
     memo = None, reads = [], spawned = []\<rparr>"


section \<open>How the operations change the state\<close>

text \<open>
  Allocation appends to the store, so what a reference of the caller points to reads the
  same afterwards. Each function is then described by the one request it hands to the
  runner: its program, its arguments and options, and the store at that moment.
\<close>

lemma lookup_append_old: "a < length h \<Longrightarrow> lookup (h @ cs) a = lookup h a"
  by (simp add: lookup_def nth_append)

lemma entries_append: "valid h v \<Longrightarrow> entries (h @ cs) v = entries h v"
  by (cases v) (simp_all add: entries_def valid_def lookup_append_old)

lemma elems_append: "valid h v \<Longrightarrow> elems (h @ cs) v = elems h v"
  by (cases v) (simp_all add: elems_def valid_def lookup_append_old)

lemma entries_valid: "entries h v = Some kvs \<Longrightarrow> valid h v"
  by (cases v) (simp_all add: entries_def valid_def lookup_def split: if_splits)

lemma entriesOf_env: "entriesOf (h @ [Obj []]) v = entriesOf h v"
proof (cases v)
  case (Ref a)
  consider "a < length h" | "a = length h" | "length h < a" by linarith
  then show ?thesis
    by cases (simp_all add: Ref entriesOf_def entries_def lookup_def nth_append)
qed (simp_all add: entriesOf_def entries_def)

lemma field_setDefault:
  "field (setDefault kvs (k, d)) k' =
     (if k' = k \<and> field kvs k = Undefined then d else field kvs k')"
  by (induction kvs) (auto simp: field_def)

lemma logExec_snd:
  "snd (logExec w st cmd a opt) =
     st\<lparr>spawned := spawned st @ [\<lparr>prog = cmd, argv = a, optv = opt, store = heap st\<rparr>]\<rparr>"
  by (simp add: logExec_def Let_def)

lemma logExec_fst:
  "fst (logExec w st cmd a opt)
     = exitResult (spawn w \<lparr>prog = cmd, argv = a, optv = opt, store = heap st\<rparr>)"
  by (simp add: logExec_def Let_def)

lemma reinterpret_cases:
  "reinterpret st args options =
     (if options = Undefined \<and> entries (heap st) args \<noteq> None
      then (Ref (length (heap st)), args, st\<lparr>heap := heap st @ [Arr []]\<rparr>)
      else (args, options, st))"
  by (auto simp add: reinterpret_def isUndefined_def isReallyObject_def new_def)

lemma reinterpret_again:
  assumes "reinterpret st args options = (a, opt, st1)"
  shows "reinterpret st1 a opt = (a, opt, st1)"
proof (cases "options = Undefined \<and> entries (heap st) args \<noteq> None")
  case True
  then obtain kvs where "entries (heap st) args = Some kvs" by auto
  then have "args \<noteq> Undefined" by (auto simp: entries_def)
  with True assms show ?thesis by (auto simp: reinterpret_cases)
next
  case False
  with assms show ?thesis by (auto simp: reinterpret_cases)
qed

lemma rwe_reinterpret:
  assumes "reinterpret st args options = (a, opt, st1)"
  shows "runWithinEnvironment w st cwd cmd args options = runWithinEnvironment w st1 cwd cmd a opt"
  by (simp add: runWithinEnvironment_def assms reinterpret_again [OF assms])

lemma rwe_plain:
  assumes "reinterpret st args options = (args, options, st)"
  shows "runWithinEnvironment w st cwd cmd args options =
     (let h = heap st;
          st2 = st\<lparr>heap := h @ [Obj [],
                  Obj (withDefaults (entriesOf h options)
                         [(''cwd'', Str cwd), (''env'', Ref (length h)), (''logger'', Null)])]\<rparr>
      in if args = Null \<or> args = Undefined
         then logExec w (st2\<lparr>heap := heap st2 @ [Arr []]\<rparr>) cmd (Ref (Suc (Suc (length h)))) (Ref (Suc (length h)))
         else logExec w st2 cmd args (Ref (Suc (length h))))"
  by (simp add: runWithinEnvironment_def assms new_def opts_def Let_def
         isNull_def isUndefined_def entriesOf_env)


lemma reinterpret_frame:
  assumes "reinterpret st args options = (a, opt, st1)"
  shows "take (length (heap st)) (heap st1) = heap st" "spawned st1 = spawned st"
    "memo st1 = memo st" "reads st1 = reads st"
  using assms by (auto simp: reinterpret_cases split: if_splits)

text \<open>What \<open>runWithinEnvironment\<close> hands to the runner, and what it returns.\<close>

lemma rwe_effect:
  assumes R: "reinterpret st args options = (a, opt, st1)"
  shows "\<exists>c. snd (runWithinEnvironment w st cwd cmd args options)
                = st1\<lparr>heap := store c, spawned := spawned st @ [c]\<rparr>
     \<and> fst (runWithinEnvironment w st cwd cmd args options)
                = exitResult (spawn w c)
     \<and> prog c = cmd
     \<and> (\<exists>cs. store c = heap st1 @ cs)
     \<and> (a \<noteq> Null \<and> a \<noteq> Undefined \<longrightarrow> argv c = a)
     \<and> (a = Null \<or> a = Undefined \<longrightarrow> elems (store c) (argv c) = Some [])
     \<and> entries (store c) (optv c) = Some (withDefaults (entriesOf (heap st1) opt)
           [(''cwd'', Str cwd), (''env'', Ref (length (heap st1))), (''logger'', Null)])"
proof -
  let ?h = "heap st1"
  let ?o = "Obj (withDefaults (entriesOf ?h opt)
              [(''cwd'', Str cwd), (''env'', Ref (length ?h)), (''logger'', Null)])"
  have eq: "runWithinEnvironment w st cwd cmd args options = runWithinEnvironment w st1 cwd cmd a opt"
    by (rule rwe_reinterpret [OF R])
  have sp: "spawned st1 = spawned st"
    by (rule reinterpret_frame [OF R])
  note plain = rwe_plain [OF reinterpret_again [OF R], of w cwd cmd]
  show ?thesis
  proof (cases "a = Null \<or> a = Undefined")
    case True
    let ?c = "\<lparr>prog = cmd, argv = Ref (Suc (Suc (length ?h))), optv = Ref (Suc (length ?h)),
                store = ?h @ [Obj [], ?o, Arr []]\<rparr>"
    have run: "runWithinEnvironment w st cwd cmd args options =
        logExec w (st1\<lparr>heap := ?h @ [Obj [], ?o, Arr []]\<rparr>) cmd
          (Ref (Suc (Suc (length ?h)))) (Ref (Suc (length ?h)))"
      using True by (simp add: eq plain Let_def)
    have "snd (runWithinEnvironment w st cwd cmd args options)
            = st1\<lparr>heap := store ?c, spawned := spawned st @ [?c]\<rparr>"
      by (simp add: run logExec_snd sp)
    moreover have "fst (runWithinEnvironment w st cwd cmd args options)
            = exitResult (spawn w ?c)"
      by (simp add: run logExec_fst)
    moreover have "elems (store ?c) (argv ?c) = Some []"
      by (simp add: elems_def lookup_def nth_append)
    moreover have "entries (store ?c) (optv ?c) = Some (withDefaults (entriesOf ?h opt)
           [(''cwd'', Str cwd), (''env'', Ref (length ?h)), (''logger'', Null)])"
      by (simp add: entries_def lookup_def nth_append)
    moreover have "prog ?c = cmd" "\<exists>cs. store ?c = ?h @ cs" by simp_all
    ultimately show ?thesis using True by blast
  next
    case False
    let ?c = "\<lparr>prog = cmd, argv = a, optv = Ref (Suc (length ?h)), store = ?h @ [Obj [], ?o]\<rparr>"
    have run: "runWithinEnvironment w st cwd cmd args options =
        logExec w (st1\<lparr>heap := ?h @ [Obj [], ?o]\<rparr>) cmd a (Ref (Suc (length ?h)))"
      using False by (simp add: eq plain Let_def)
    have "snd (runWithinEnvironment w st cwd cmd args options)
            = st1\<lparr>heap := store ?c, spawned := spawned st @ [?c]\<rparr>"
      by (simp add: run logExec_snd sp)
    moreover have "fst (runWithinEnvironment w st cwd cmd args options)
            = exitResult (spawn w ?c)"
      by (simp add: run logExec_fst)
    moreover have "entries (store ?c) (optv ?c) = Some (withDefaults (entriesOf ?h opt)
           [(''cwd'', Str cwd), (''env'', Ref (length ?h)), (''logger'', Null)])"
      by (simp add: entries_def lookup_def nth_append)
    moreover have "prog ?c = cmd" "\<exists>cs. store ?c = ?h @ cs" "argv ?c = a" by simp_all
    ultimately show ?thesis using False by blast
  qed
qed


lemma reinterpret_given:
  "opt \<noteq> Undefined \<Longrightarrow> reinterpret st a opt = (a, opt, st)"
  by (simp add: reinterpret_cases)

lemma getProp_field: "getProp h v k = field (entriesOf h v) k"
  by (simp add: getProp_def entriesOf_def field_def split: option.splits)

lemma getProp_new: "getProp (h @ Obj kvs # cs) (Ref (length h)) k = field kvs k"
  by (simp add: getProp_def entries_def lookup_def)

lemma toString_no_reference: "\<not> reference v \<Longrightarrow> toString h v = toString h' v"
  by (cases v) (simp_all add: toString_def reference_def)

text \<open>The same for \<open>patch\<close> and for \<open>make\<close>.\<close>

lemma patch_effect:
  "\<exists>c. snd (patch w st cwd patchFile options) = st\<lparr>heap := store c, spawned := spawned st @ [c]\<rparr>
     \<and> fst (patch w st cwd patchFile options)
                = exitResult (spawn w c)
     \<and> prog c = ''patch''
     \<and> (\<exists>cs. store c = heap st @ cs)
     \<and> (\<exists>h'. elems (store c) (argv c) =
            Some [Str (''-p'' @ toString h'
                    (field (withDefaults (entriesOf (heap st) options) [(''patchLevel'', Num (Fin 0))])
                       ''patchLevel'')),
                  Str ''-i'', Str patchFile])"
proof -
  let ?h = "heap st"
  let ?o = "withDefaults (entriesOf ?h options) [(''patchLevel'', Num (Fin 0))]"
  let ?args = "[Str (''-p'' @ toString (?h @ [Obj ?o]) (field ?o ''patchLevel'')), Str ''-i'', Str patchFile]"
  let ?st2 = "st\<lparr>heap := ?h @ [Obj ?o, Arr ?args]\<rparr>"
  have p: "patch w st cwd patchFile options =
      runWithinEnvironment w ?st2 cwd ''patch'' (Ref (Suc (length ?h))) (Ref (length ?h))"
    by (simp add: patch_def opts_def new_def Let_def getProp_new)
  have R: "reinterpret ?st2 (Ref (Suc (length ?h))) (Ref (length ?h))
             = (Ref (Suc (length ?h)), Ref (length ?h), ?st2)"
    by (simp add: reinterpret_given)
  from rwe_effect [OF R, of w cwd "''patch''"]
  obtain c cs where c:
    "snd (runWithinEnvironment w ?st2 cwd ''patch'' (Ref (Suc (length ?h))) (Ref (length ?h)))
         = ?st2\<lparr>heap := store c, spawned := spawned ?st2 @ [c]\<rparr>"
    "fst (runWithinEnvironment w ?st2 cwd ''patch'' (Ref (Suc (length ?h))) (Ref (length ?h)))
         = exitResult (spawn w c)"
    "prog c = ''patch''"
    "store c = heap ?st2 @ cs"
    "argv c = Ref (Suc (length ?h))"
    by auto
  have el: "elems (store c) (argv c) = Some ?args"
    by (simp add: elems_def lookup_def c(4,5) nth_append)
  have fr: "\<exists>cs. store c = ?h @ cs"
    by (simp add: c(4))
  have s1: "snd (patch w st cwd patchFile options) = st\<lparr>heap := store c, spawned := spawned st @ [c]\<rparr>"
    using c(1) by (simp add: p)
  have s2: "fst (patch w st cwd patchFile options)
                = exitResult (spawn w c)"
    using c(2) by (simp only: p)
  from el have s5: "\<exists>h'. elems (store c) (argv c) =
            Some [Str (''-p'' @ toString h' (field ?o ''patchLevel'')), Str ''-i'', Str patchFile]"
    by blast
  from s1 s2 c(3) fr s5 show ?thesis by blast
qed

lemma machineInformation_heap:
  "machineInformation w (st\<lparr>heap := x\<rparr>) =
     (fst (machineInformation w st), (snd (machineInformation w st))\<lparr>heap := x\<rparr>)"
  by (simp add: machineInformation_def Let_def split: option.splits)

lemma machineInformation_frame:
  "heap (snd (machineInformation w st)) = heap st"
  "spawned (snd (machineInformation w st)) = spawned st"
  by (simp_all add: machineInformation_def Let_def split: option.splits)

lemma arrayOf_append: "valid h v \<Longrightarrow> arrayOf (h @ cs) v = arrayOf h v"
  by (cases v) (simp_all add: arrayOf_def valid_def lookup_append_old)

lemma reinterpret_state:
  assumes "reinterpret st args options = (a, opt, st1)"
  shows "st1 = st\<lparr>heap := heap st1\<rparr>" "\<exists>cs. heap st1 = heap st @ cs"
  using assms by (auto simp: reinterpret_cases split: if_splits)


lemma make_truthy:
  assumes R: "reinterpret st args options = (a, opt, st\<lparr>heap := h\<rparr>)"
    and T: "truthy (field (withDefaults (entriesOf h opt)
              [(''supportsParallelBuild'', Bool True), (''maxParallelJobs'', Num PosInf)]) ''supportsParallelBuild'')"
  shows "make w st cwd args options =
    (let ob = withDefaults (entriesOf h opt)
              [(''supportsParallelBuild'', Bool True), (''maxParallelJobs'', Num PosInf)];
         flag = Str (''--jobs='' @ numToString (mathMin (Fin (int (cores (fst (machineInformation w st))) + 1))
                        (toNumber w (h @ [Obj ob, Arr []]) (field ob ''maxParallelJobs''))));
         xs = arrayOf (h @ [Obj ob, Arr [flag]]) a
     in runWithinEnvironment w
          ((snd (machineInformation w st))\<lparr>heap := h @ [Obj ob, Arr [flag], Arr xs, Arr (flag # xs)]\<rparr>)
          cwd ''make'' (Ref (Suc (Suc (Suc (length h))))) (Ref (length h)))"
  using T
  by (simp add: make_def R opts_def new_def Let_def getProp_new machineInformation_heap
        push_def lookup_def nth_append toArray_def concat_arr_def elems_def list_update_append)

lemma make_falsy:
  assumes R: "reinterpret st args options = (a, opt, st\<lparr>heap := h\<rparr>)"
    and T: "\<not> truthy (field (withDefaults (entriesOf h opt)
              [(''supportsParallelBuild'', Bool True), (''maxParallelJobs'', Num PosInf)]) ''supportsParallelBuild'')"
  shows "make w st cwd args options =
    (let ob = withDefaults (entriesOf h opt)
              [(''supportsParallelBuild'', Bool True), (''maxParallelJobs'', Num PosInf)];
         xs = arrayOf (h @ [Obj ob, Arr []]) a
     in runWithinEnvironment w
          (st\<lparr>heap := h @ [Obj ob, Arr [], Arr xs, Arr xs]\<rparr>)
          cwd ''make'' (Ref (Suc (Suc (Suc (length h))))) (Ref (length h)))"
  using T
  by (simp add: make_def R opts_def new_def Let_def getProp_new
        lookup_def nth_append toArray_def concat_arr_def elems_def)


lemma make_effect:
  fixes w st cwd args options a opt st1
  defines "ob \<equiv> withDefaults (entriesOf (heap st1) opt)
              [(''supportsParallelBuild'', Bool True), (''maxParallelJobs'', Num PosInf)]"
  defines "sp \<equiv> truthy (field ob ''supportsParallelBuild'')"
  assumes R: "reinterpret st args options = (a, opt, st1)"
  shows "\<exists>c h' h''.
       snd (make w st cwd args options)
         = (if sp then snd (machineInformation w st) else st)\<lparr>heap := store c, spawned := spawned st @ [c]\<rparr>
     \<and> fst (make w st cwd args options)
         = exitResult (spawn w c)
     \<and> prog c = ''make''
     \<and> (\<exists>cs. store c = heap st @ cs)
     \<and> (\<exists>cs. h' = heap st1 @ cs) \<and> (\<exists>cs. h'' = heap st1 @ cs)
     \<and> elems (store c) (argv c) =
         Some ((if sp
                then [Str (''--jobs='' @ numToString
                        (mathMin (Fin (int (cores (fst (machineInformation w st))) + 1))
                                 (toNumber w h' (field ob ''maxParallelJobs''))))]
                else []) @ arrayOf h'' a)"
proof -
  let ?h = "heap st1"
  let ?res = "\<lambda>c. exitResult (spawn w c)"
  from reinterpret_state [OF R] obtain cs0 where st1: "st1 = st\<lparr>heap := ?h\<rparr>" and h0: "?h = heap st @ cs0"
    by blast
  have R': "reinterpret st args options = (a, opt, st\<lparr>heap := ?h\<rparr>)"
    using R st1 by simp
  show ?thesis
  proof (cases sp)
    case True
    let ?flag = "Str (''--jobs='' @ numToString (mathMin (Fin (int (cores (fst (machineInformation w st))) + 1))
                        (toNumber w (?h @ [Obj ob, Arr []]) (field ob ''maxParallelJobs''))))"
    let ?xs = "arrayOf (?h @ [Obj ob, Arr [?flag]]) a"
    let ?H = "?h @ [Obj ob, Arr [?flag], Arr ?xs, Arr (?flag # ?xs)]"
    let ?st2 = "(snd (machineInformation w st))\<lparr>heap := ?H\<rparr>"
    let ?A = "Ref (Suc (Suc (Suc (length ?h))))"
    have m: "make w st cwd args options = runWithinEnvironment w ?st2 cwd ''make'' ?A (Ref (length ?h))"
      using True make_truthy [OF R', of w cwd] by (simp add: sp_def ob_def Let_def)
    have R2: "reinterpret ?st2 ?A (Ref (length ?h)) = (?A, Ref (length ?h), ?st2)"
      by (simp add: reinterpret_given)
    from rwe_effect [OF R2, of w cwd "''make''"]
    obtain c cs where c:
      "snd (runWithinEnvironment w ?st2 cwd ''make'' ?A (Ref (length ?h)))
         = ?st2\<lparr>heap := store c, spawned := spawned ?st2 @ [c]\<rparr>"
      "fst (runWithinEnvironment w ?st2 cwd ''make'' ?A (Ref (length ?h))) = ?res c"
      "prog c = ''make''"
      "store c = heap ?st2 @ cs"
      "argv c = ?A"
      by auto
    have s1: "snd (make w st cwd args options)
         = (if sp then snd (machineInformation w st) else st)\<lparr>heap := store c, spawned := spawned st @ [c]\<rparr>"
      using c(1) True by (simp add: m machineInformation_frame)
    have s2: "fst (make w st cwd args options) = ?res c"
      using c(2) by (simp only: m)
    have s4: "\<exists>cs. store c = heap st @ cs"
      by (simp add: c(4) h0)
    have s5: "elems (store c) (argv c) = Some ((if sp then [?flag] else []) @ ?xs)"
      using True by (simp add: elems_def lookup_def c(4,5) nth_append)
    have s6: "\<exists>cs. ?h @ [Obj ob, Arr []] = ?h @ cs" "\<exists>cs. ?h @ [Obj ob, Arr [?flag]] = ?h @ cs"
      by blast+
    from s1 s2 c(3) s4 s5 s6 show ?thesis by blast
  next
    case False
    let ?xs = "arrayOf (?h @ [Obj ob, Arr []]) a"
    let ?H = "?h @ [Obj ob, Arr [], Arr ?xs, Arr ?xs]"
    let ?st2 = "st\<lparr>heap := ?H\<rparr>"
    let ?A = "Ref (Suc (Suc (Suc (length ?h))))"
    have m: "make w st cwd args options = runWithinEnvironment w ?st2 cwd ''make'' ?A (Ref (length ?h))"
      using False make_falsy [OF R', of w cwd] by (simp add: sp_def ob_def Let_def)
    have R2: "reinterpret ?st2 ?A (Ref (length ?h)) = (?A, Ref (length ?h), ?st2)"
      by (simp add: reinterpret_given)
    from rwe_effect [OF R2, of w cwd "''make''"]
    obtain c cs where c:
      "snd (runWithinEnvironment w ?st2 cwd ''make'' ?A (Ref (length ?h)))
         = ?st2\<lparr>heap := store c, spawned := spawned ?st2 @ [c]\<rparr>"
      "fst (runWithinEnvironment w ?st2 cwd ''make'' ?A (Ref (length ?h))) = ?res c"
      "prog c = ''make''"
      "store c = heap ?st2 @ cs"
      "argv c = ?A"
      by auto
    have s1: "snd (make w st cwd args options)
         = (if sp then snd (machineInformation w st) else st)\<lparr>heap := store c, spawned := spawned st @ [c]\<rparr>"
      using c(1) False by (simp add: m)
    have s2: "fst (make w st cwd args options) = ?res c"
      using c(2) by (simp only: m)
    have s4: "\<exists>cs. store c = heap st @ cs"
      by (simp add: c(4) h0)
    have s5: "elems (store c) (argv c) = Some ((if sp then [Str (''--jobs='' @ numToString
                        (mathMin (Fin (int (cores (fst (machineInformation w st))) + 1))
                                 (toNumber w ?h (field ob ''maxParallelJobs''))))] else []) @ ?xs)"
      using False by (simp add: elems_def lookup_def c(4,5) nth_append)
    have s6: "\<exists>cs. ?h = ?h @ cs" "\<exists>cs. ?h @ [Obj ob, Arr []] = ?h @ cs"
      by simp_all
    from s1 s2 c(3) s4 s5 s6 show ?thesis by blast
  qed
qed


lemma findConfigureScript_cases:
  "findConfigureScript w dir =
     (if fileExists w (pathJoin w dir ''configure'') then Inr (pathJoin w dir ''configure'')
      else if fileExists w (pathJoin w dir ''config'') then Inr (pathJoin w dir ''config'')
      else Inl (Error (''Cannot find any of configure, config under '' @ dir)))"
  by (simp add: findConfigureScript_def Let_def)

lemma configure_reinterpret:
  assumes "reinterpret st args options = (a, opt, st1)"
  shows "configure w st cwd args options = configure w st1 cwd a opt"
  by (simp add: configure_def assms reinterpret_again [OF assms])

lemma make_reinterpret:
  assumes "reinterpret st args options = (a, opt, st1)"
  shows "make w st cwd args options = make w st1 cwd a opt"
  by (simp add: make_def assms reinterpret_again [OF assms])

lemma configure_found:
  assumes "findConfigureScript w cwd = Inr script"
  shows "configure w st cwd args options = runWithinEnvironment w st cwd script args options"
proof -
  obtain a opt st1 where R: "reinterpret st args options = (a, opt, st1)"
    by (cases "reinterpret st args options") auto
  have "configure w st cwd args options = runWithinEnvironment w st1 cwd script a opt"
    by (simp add: configure_def R assms)
  also have "\<dots> = runWithinEnvironment w st cwd script args options"
    by (rule rwe_reinterpret [OF R, symmetric])
  finally show ?thesis .
qed

lemma configure_missing:
  assumes "findConfigureScript w cwd = Inl e"
  shows "fst (configure w st cwd args options) = Inl e"
    "spawned (snd (configure w st cwd args options)) = spawned st"
    "\<exists>cs. heap (snd (configure w st cwd args options)) = heap st @ cs"
    "memo (snd (configure w st cwd args options)) = memo st"
    "reads (snd (configure w st cwd args options)) = reads st"
proof -
  obtain a opt st1 where R: "reinterpret st args options = (a, opt, st1)"
    by (cases "reinterpret st args options") auto
  have c: "configure w st cwd args options = (Inl e, st1)"
    by (simp add: configure_def R assms)
  show "fst (configure w st cwd args options) = Inl e" by (simp add: c)
  show "spawned (snd (configure w st cwd args options)) = spawned st"
    by (simp add: c reinterpret_frame [OF R])
  show "\<exists>cs. heap (snd (configure w st cwd args options)) = heap st @ cs"
    using reinterpret_state(2) [OF R] by (simp add: c)
  show "memo (snd (configure w st cwd args options)) = memo st"
    by (simp add: c reinterpret_frame [OF R])
  show "reads (snd (configure w st cwd args options)) = reads st"
    by (simp add: c reinterpret_frame [OF R])
qed

lemma rwe_summary:
  "\<exists>c cs. spawned (snd (runWithinEnvironment w st cwd cmd args options)) = spawned st @ [c]
     \<and> heap (snd (runWithinEnvironment w st cwd cmd args options)) = heap st @ cs
     \<and> memo (snd (runWithinEnvironment w st cwd cmd args options)) = memo st
     \<and> reads (snd (runWithinEnvironment w st cwd cmd args options)) = reads st
     \<and> prog c = cmd
     \<and> fst (runWithinEnvironment w st cwd cmd args options)
         = exitResult (spawn w c)"
proof -
  obtain a opt st1 where R: "reinterpret st args options = (a, opt, st1)"
    by (cases "reinterpret st args options") auto
  from reinterpret_state(2) [OF R] obtain cs0 where h0: "heap st1 = heap st @ cs0" by blast
  from rwe_effect [OF R, of w cwd cmd]
  obtain c cs where c:
    "snd (runWithinEnvironment w st cwd cmd args options)
         = st1\<lparr>heap := store c, spawned := spawned st @ [c]\<rparr>"
    "fst (runWithinEnvironment w st cwd cmd args options)
         = exitResult (spawn w c)"
    "prog c = cmd"
    "store c = heap st1 @ cs"
    by blast
  have "heap (snd (runWithinEnvironment w st cwd cmd args options)) = heap st @ (cs0 @ cs)"
    by (simp add: c(1,4) h0)
  moreover have "spawned (snd (runWithinEnvironment w st cwd cmd args options)) = spawned st @ [c]"
    by (simp add: c(1))
  moreover have "memo (snd (runWithinEnvironment w st cwd cmd args options)) = memo st"
    "reads (snd (runWithinEnvironment w st cwd cmd args options)) = reads st"
    by (simp_all add: c(1) reinterpret_frame [OF R])
  ultimately show ?thesis using c(2,3) by blast
qed



lemma machineInformation_cached:
  "memo st = Some i \<Longrightarrow> machineInformation w st = (i, st)"
  by (simp add: machineInformation_def)

text \<open>
  Every exported call extends the store, leaves a filled cache and the record of reads
  alone, and either hands one request to the runner and returns its result, or fails
  before any request with an error of its own.
\<close>

lemma invoke_summary:
  "\<exists>cs. heap (snd (invoke w st i)) = heap st @ cs
     \<and> (memo st \<noteq> None \<longrightarrow> memo (snd (invoke w st i)) = memo st \<and> reads (snd (invoke w st i)) = reads st)
     \<and> ((\<exists>c. spawned (snd (invoke w st i)) = spawned st @ [c]
            \<and> fst (invoke w st i)
                = exitResult (spawn w c))
          \<or> (spawned (snd (invoke w st i)) = spawned st \<and> (\<exists>m. fst (invoke w st i) = Inl (Error m))))"
proof (cases i)
  case (RunWithinEnvironment cwd cmd args options)
  from rwe_summary [of w st cwd cmd args options] show ?thesis
    unfolding RunWithinEnvironment invoke.simps by blast
next
  case (Configure cwd args options)
  show ?thesis
  proof (cases "findConfigureScript w cwd")
    case (Inl e)
    then obtain m where "e = Error m"
      by (auto simp: findConfigureScript_cases split: if_splits)
    with configure_missing [OF Inl, of st args options] show ?thesis
      unfolding Configure invoke.simps by blast
  next
    case (Inr script)
    from rwe_summary [of w st cwd script args options] show ?thesis
      unfolding Configure invoke.simps configure_found [OF Inr] by blast
  qed
next
  case (Patch cwd patchFile options)
  from patch_effect [of w st cwd patchFile options]
  obtain c cs where c:
    "snd (patch w st cwd patchFile options) = st\<lparr>heap := store c, spawned := spawned st @ [c]\<rparr>"
    "fst (patch w st cwd patchFile options)
                = exitResult (spawn w c)"
    "store c = heap st @ cs"
    by blast
  have "heap (snd (patch w st cwd patchFile options)) = heap st @ cs"
    "memo (snd (patch w st cwd patchFile options)) = memo st"
    "reads (snd (patch w st cwd patchFile options)) = reads st"
    "spawned (snd (patch w st cwd patchFile options)) = spawned st @ [c]"
    by (simp_all add: c(1,3))
  with c(2) show ?thesis
    unfolding Patch invoke.simps by blast
next
  case (Make cwd args options)
  obtain a opt st1 where R: "reinterpret st args options = (a, opt, st1)"
    by (cases "reinterpret st args options") auto
  let ?X = "if truthy (field (withDefaults (entriesOf (heap st1) opt)
              [(''supportsParallelBuild'', Bool True), (''maxParallelJobs'', Num PosInf)])
              ''supportsParallelBuild'')
            then snd (machineInformation w st) else st"
  from make_effect [OF R, of w cwd]
  obtain c cs where c:
    "snd (make w st cwd args options) = ?X\<lparr>heap := store c, spawned := spawned st @ [c]\<rparr>"
    "fst (make w st cwd args options)
                = exitResult (spawn w c)"
    "store c = heap st @ cs"
    by blast
  have X: "memo st \<noteq> None \<longrightarrow> memo ?X = memo st \<and> reads ?X = reads st"
    by (auto simp: machineInformation_cached)
  have "heap (snd (make w st cwd args options)) = heap st @ cs"
    "spawned (snd (make w st cwd args options)) = spawned st @ [c]"
    by (simp_all add: c(1,3))
  moreover have "memo st \<noteq> None \<longrightarrow> memo (snd (make w st cwd args options)) = memo st
       \<and> reads (snd (make w st cwd args options)) = reads st"
    using X by (simp add: c(1))
  ultimately show ?thesis
    using c(2) unfolding Make invoke.simps by blast
qed

lemma elems_valid: "elems h v = Some xs \<Longrightarrow> valid h v"
  by (cases v) (simp_all add: elems_def valid_def lookup_def split: if_splits)

lemma count_fold:
  "fold (\<lambda>line n. if P line then n + 1 else n) ls k = k + length (filter P ls)"
  by (induction ls arbitrary: k) simp_all

lemma machineInformation_fresh:
  assumes "memo st = None"
  shows "machineInformation w st =
     (if isPlatform w ''linux''
      then (let i = \<lparr>cores = max (length (filter matchesProcessor (eachLine w ''/proc/cpuinfo''))) 2\<rparr>
            in (i, st\<lparr>reads := reads st @ [''/proc/cpuinfo''], memo := Some i\<rparr>))
      else (\<lparr>cores = 2\<rparr>, st\<lparr>memo := Some \<lparr>cores = 2\<rparr>\<rparr>))"
  using assms by (simp add: machineInformation_def Let_def count_fold)

lemma machineInformation_memo:
  "memo (snd (machineInformation w st)) = Some (fst (machineInformation w st))"
proof (cases "memo st")
  case None
  then show ?thesis by (simp add: machineInformation_fresh Let_def)
next
  case (Some i)
  then show ?thesis by (simp add: machineInformation_cached)
qed

lemma machineInformation_again:
  "machineInformation w' (snd (machineInformation w st)) = machineInformation w st"
  using machineInformation_cached [OF machineInformation_memo, of w' w st] by simp

lemma toNumber_world: "toNumber (w\<lparr>eachLine := f\<rparr>) h v = toNumber w h v"
  by (cases v) (simp_all add: toNumber_def)

lemma rwe_world:
  "runWithinEnvironment (w\<lparr>eachLine := f\<rparr>) st cwd cmd a opt = runWithinEnvironment w st cwd cmd a opt"
  by (simp add: runWithinEnvironment_def logExec_def)

lemma make_cached_world:
  assumes "memo st = Some i"
  shows "make (w\<lparr>eachLine := f\<rparr>) st cwd args options = make w st cwd args options"
proof -
  obtain a opt st1 where R: "reinterpret st args options = (a, opt, st1)"
    by (cases "reinterpret st args options") auto
  from reinterpret_state(1) [OF R] have R': "reinterpret st args options = (a, opt, st\<lparr>heap := heap st1\<rparr>)"
    using R by simp
  have mi: "machineInformation (w\<lparr>eachLine := f\<rparr>) st = machineInformation w st"
    by (simp add: machineInformation_cached [OF assms])
  show ?thesis
  proof (cases "truthy (field (withDefaults (entriesOf (heap st1) opt)
              [(''supportsParallelBuild'', Bool True), (''maxParallelJobs'', Num PosInf)]) ''supportsParallelBuild'')")
    case True
    show ?thesis
      by (simp only: make_truthy [OF R' True] mi toNumber_world rwe_world)
  next
    case False
    show ?thesis
      by (simp only: make_falsy [OF R' False] rwe_world)
  qed
qed

lemma field_patchLevel:
  "field (withDefaults kvs [(''patchLevel'', Num (Fin 0))]) ''patchLevel''
     = (if field kvs ''patchLevel'' = Undefined then Num (Fin 0) else field kvs ''patchLevel'')"
  by (simp add: withDefaults_def field_setDefault)

lemma field_makeDefaults:
  "field (withDefaults kvs [(''supportsParallelBuild'', Bool True), (''maxParallelJobs'', Num PosInf)])
       ''supportsParallelBuild''
     = (if field kvs ''supportsParallelBuild'' = Undefined then Bool True
        else field kvs ''supportsParallelBuild'')"
  "field (withDefaults kvs [(''supportsParallelBuild'', Bool True), (''maxParallelJobs'', Num PosInf)])
       ''maxParallelJobs''
     = (if field kvs ''maxParallelJobs'' = Undefined then Num PosInf
        else field kvs ''maxParallelJobs'')"
  by (simp_all add: withDefaults_def field_setDefault)

lemma reinterpret_entriesOf:
  assumes "reinterpret st args options = (a, opt, st1)"
  shows "entriesOf (heap st1) opt = entriesOf (heap st) opt"
proof (cases "options = Undefined \<and> entries (heap st) args \<noteq> None")
  case True
  then obtain kvs where k: "entries (heap st) args = Some kvs" by auto
  from True assms have "opt = args" "heap st1 = heap st @ [Arr []]"
    by (auto simp: reinterpret_cases)
  then show ?thesis
    by (simp add: entriesOf_def entries_append [OF entries_valid [OF k]])
next
  case False
  with assms show ?thesis by (auto simp: reinterpret_cases)
qed

lemma reinterpret_valid:
  assumes "reinterpret st args options = (a, opt, st1)" and "valid (heap st) args"
  shows "valid (heap st1) a"
  using assms by (auto simp: reinterpret_cases valid_def split: if_splits)

lemma toNumber_Num: "toNumber w h (Num m) = m"
  by (simp add: toNumber_def)

lemma reinterpret_object:
  assumes "isReallyObject (heap st) args"
  shows "reinterpret st args Undefined = (Ref (length (heap st)), args, st\<lparr>heap := heap st @ [Arr []]\<rparr>)"
  using assms by (simp add: reinterpret_cases isReallyObject_def)

lemma reinterpret_list:
  assumes "(\<exists>s. args = Str s) \<or> elems (heap st) args \<noteq> None"
  shows "reinterpret st args options = (args, options, st)"
proof -
  have "entries (heap st) args = None"
    using assms
    by (cases args) (auto simp: entries_def elems_def split: option.splits cell.splits)
  then show ?thesis by (simp add: reinterpret_cases)
qed


section \<open>The overload block\<close>

text \<open>
  In \<open>runWithinEnvironment\<close>, \<open>configure\<close> and \<open>make\<close>: when options is not given
  (undefined) and args is a plain object, the call is the call that has this object as its
  options and a new empty list as its args. When args is a string or an array nothing is
  rebound, and \<open>runWithinEnvironment\<close> and \<open>configure\<close> hand this very args value to the
  runner. What \<open>make\<close> hands over is the subject of the next section.
\<close>

lemma positional_overload:
  "(isReallyObject (heap st) args \<longrightarrow>
        runWithinEnvironment w st cwd cmd args Undefined
          = (let (a, st1) = new st (Arr []) in runWithinEnvironment w st1 cwd cmd a args)
      \<and> configure w st cwd args Undefined
          = (let (a, st1) = new st (Arr []) in configure w st1 cwd a args)
      \<and> make w st cwd args Undefined
          = (let (a, st1) = new st (Arr []) in make w st1 cwd a args))
   \<and> ((\<exists>s. args = Str s) \<or> elems (heap st) args \<noteq> None \<longrightarrow>
        reinterpret st args options = (args, options, st)
      \<and> (\<exists>c. spawned (snd (runWithinEnvironment w st cwd cmd args options)) = spawned st @ [c]
             \<and> argv c = args)
      \<and> (\<forall>script. findConfigureScript w cwd = Inr script \<longrightarrow>
             (\<exists>c. spawned (snd (configure w st cwd args options)) = spawned st @ [c]
                \<and> prog c = script \<and> argv c = args)))"
proof (intro conjI impI)
  assume obj: "isReallyObject (heap st) args"
  note R = reinterpret_object [OF obj]
  show "runWithinEnvironment w st cwd cmd args Undefined
          = (let (a, st1) = new st (Arr []) in runWithinEnvironment w st1 cwd cmd a args)"
    by (simp add: rwe_reinterpret [OF R] new_def)
  show "configure w st cwd args Undefined
          = (let (a, st1) = new st (Arr []) in configure w st1 cwd a args)"
    by (simp add: configure_reinterpret [OF R] new_def)
  show "make w st cwd args Undefined
          = (let (a, st1) = new st (Arr []) in make w st1 cwd a args)"
    by (simp add: make_reinterpret [OF R] new_def)
next
  assume l: "(\<exists>s. args = Str s) \<or> elems (heap st) args \<noteq> None"
  show "reinterpret st args options = (args, options, st)"
    by (rule reinterpret_list [OF l])
next
  assume l: "(\<exists>s. args = Str s) \<or> elems (heap st) args \<noteq> None"
  note R = reinterpret_list [OF l, of options]
  from l have n: "args \<noteq> Null \<and> args \<noteq> Undefined"
    by (auto simp: elems_def)
  have run: "\<exists>c. spawned (snd (runWithinEnvironment w st cwd cm args options)) = spawned st @ [c]
             \<and> prog c = cm \<and> argv c = args" for cm
  proof -
    from rwe_effect [OF R, of w cwd cm] n
    obtain c where "snd (runWithinEnvironment w st cwd cm args options)
                = st\<lparr>heap := store c, spawned := spawned st @ [c]\<rparr>"
      and "prog c = cm" and "argv c = args"
      by blast
    then show ?thesis by (intro exI [of _ c]) simp
  qed
  from run [of cmd]
  show "\<exists>c. spawned (snd (runWithinEnvironment w st cwd cmd args options)) = spawned st @ [c]
             \<and> argv c = args"
    by blast
  show "\<forall>script. findConfigureScript w cwd = Inr script \<longrightarrow>
             (\<exists>c. spawned (snd (configure w st cwd args options)) = spawned st @ [c]
                \<and> prog c = script \<and> argv c = args)"
    using run by (simp add: configure_found)
qed


section \<open>A remark on string arguments\<close>

text \<open>
  \<open>runWithinEnvironment\<close> and \<open>configure\<close> hand a string given as args to the runner as it
  is. \<open>make\<close> lists its args with \<open>_.toArray\<close>, so there a string reaches the runner as
  its single characters, after the jobs flag if there is one, although the documentation
  of \<open>make\<close> gives args the type \<open>string|array\<close> as it does for the other two.
\<close>

lemma make_string_args:
  "\<exists>c flags. spawned (snd (make w st cwd (Str s) options)) = spawned st @ [c]
     \<and> length flags \<le> 1
     \<and> elems (store c) (argv c) = Some (flags @ map (\<lambda>ch. Str [ch]) s)"
proof -
  let ?sp = "truthy (field (withDefaults (entriesOf (heap st) options)
              [(''supportsParallelBuild'', Bool True), (''maxParallelJobs'', Num PosInf)])
              ''supportsParallelBuild'')"
  have R: "reinterpret st (Str s) options = (Str s, options, st)"
    by (simp add: reinterpret_cases entries_def)
  from make_effect [OF R, of w cwd]
  obtain c flag h'' where c:
    "snd (make w st cwd (Str s) options)
       = (if ?sp then snd (machineInformation w st) else st)
           \<lparr>heap := store c, spawned := spawned st @ [c]\<rparr>"
    "elems (store c) (argv c) = Some ((if ?sp then [flag] else []) @ arrayOf h'' (Str s))"
    by blast
  let ?flags = "if ?sp then [flag] else []"
  have "spawned (snd (make w st cwd (Str s) options)) = spawned st @ [c]"
    by (simp add: c(1))
  moreover have "elems (store c) (argv c) = Some (?flags @ map (\<lambda>ch. Str [ch]) s)"
    by (simp add: c(2) arrayOf_def)
  moreover have "length ?flags \<le> 1" by simp
  ultimately show ?thesis by blast
qed


section \<open>The claims\<close>

text \<open>
  C1. Where \<open>supportsParallelBuild\<close> is left at its default (or is otherwise true), the
  argument list \<open>make\<close> passes to the runner begins with \<open>--jobs=N\<close>, N being the smaller
  of the core count plus one and \<open>maxParallelJobs\<close> (unbounded when it is not given),
  followed by the caller's arguments; where \<open>supportsParallelBuild\<close> is false the list is
  the caller's arguments only; and where \<open>maxParallelJobs\<close> is 1 the flag is \<open>--jobs=1\<close>
  whatever the core count. The options are those of the call after the overload block,
  and the caller's arguments are its args as \<open>_.toArray\<close> lists them (the elements of
  an array; see the remark above for a string).
\<close>

theorem make_jobs_flag:
  assumes R: "reinterpret st args options = (a, opt, st1)"
    and V: "valid (heap st) args"
  shows "\<exists>c limit.
       spawned (snd (make w st cwd args options)) = spawned st @ [c]
     \<and> prog c = ''make''
     \<and> (getProp (heap st) opt ''supportsParallelBuild'' = Undefined
          \<or> truthy (getProp (heap st) opt ''supportsParallelBuild'') \<longrightarrow>
          elems (store c) (argv c)
            = Some (Str (''--jobs='' @ numToString
                      (mathMin (Fin (int (cores (fst (machineInformation w st))) + 1)) limit))
                    # arrayOf (heap st1) a))
     \<and> (getProp (heap st) opt ''maxParallelJobs'' = Undefined \<longrightarrow> limit = PosInf)
     \<and> (\<forall>m. getProp (heap st) opt ''maxParallelJobs'' = Num m \<longrightarrow> limit = m)
     \<and> (getProp (heap st) opt ''supportsParallelBuild'' \<noteq> Undefined
          \<and> \<not> truthy (getProp (heap st) opt ''supportsParallelBuild'') \<longrightarrow>
          elems (store c) (argv c) = Some (arrayOf (heap st1) a))
     \<and> ((getProp (heap st) opt ''supportsParallelBuild'' = Undefined
           \<or> truthy (getProp (heap st) opt ''supportsParallelBuild''))
          \<and> getProp (heap st) opt ''maxParallelJobs'' = Num (Fin 1) \<longrightarrow>
          elems (store c) (argv c) = Some (Str ''--jobs=1'' # arrayOf (heap st1) a))"
proof -
  let ?kvs = "entriesOf (heap st1) opt"
  let ?ob = "withDefaults ?kvs [(''supportsParallelBuild'', Bool True), (''maxParallelJobs'', Num PosInf)]"
  let ?spb = "getProp (heap st) opt ''supportsParallelBuild''"
  let ?mpj = "getProp (heap st) opt ''maxParallelJobs''"
  let ?n = "Fin (int (cores (fst (machineInformation w st))) + 1)"
  have k: "field ?kvs key = getProp (heap st) opt key" for key
    by (simp add: getProp_field reinterpret_entriesOf [OF R])
  have sp: "truthy (field ?ob ''supportsParallelBuild'') \<longleftrightarrow> ?spb = Undefined \<or> truthy ?spb"
    by (auto simp add: field_makeDefaults k)
  have mp: "field ?ob ''maxParallelJobs'' = (if ?mpj = Undefined then Num PosInf else ?mpj)"
    by (simp add: field_makeDefaults k)
  from make_effect [OF R, of w cwd]
  obtain c h' h'' cs where c:
    "snd (make w st cwd args options)
       = (if truthy (field ?ob ''supportsParallelBuild'') then snd (machineInformation w st) else st)
           \<lparr>heap := store c, spawned := spawned st @ [c]\<rparr>"
    "prog c = ''make''"
    "h'' = heap st1 @ cs"
    "elems (store c) (argv c) =
         Some ((if truthy (field ?ob ''supportsParallelBuild'')
                then [Str (''--jobs='' @ numToString (mathMin ?n (toNumber w h' (field ?ob ''maxParallelJobs''))))]
                else []) @ arrayOf h'' a)"
    by blast
  let ?limit = "toNumber w h' (field ?ob ''maxParallelJobs'')"
  have ar: "arrayOf h'' a = arrayOf (heap st1) a"
    by (simp add: c(3) arrayOf_append [OF reinterpret_valid [OF R V]])
  have s: "spawned (snd (make w st cwd args options)) = spawned st @ [c]"
    by (simp add: c(1))
  have on: "?spb = Undefined \<or> truthy ?spb \<longrightarrow>
      elems (store c) (argv c) = Some (Str (''--jobs='' @ numToString (mathMin ?n ?limit)) # arrayOf (heap st1) a)"
    using c(4) by (simp add: sp ar)
  have off: "?spb \<noteq> Undefined \<and> \<not> truthy ?spb \<longrightarrow>
      elems (store c) (argv c) = Some (arrayOf (heap st1) a)"
    using c(4) by (simp add: sp ar)
  have l1: "?mpj = Undefined \<longrightarrow> ?limit = PosInf"
    by (simp add: mp toNumber_Num)
  have l2: "\<forall>m. ?mpj = Num m \<longrightarrow> ?limit = m"
    by (simp add: mp toNumber_Num)
  have one: "numToString (Fin 1) = ''1''" by code_simp
  have l3: "(?spb = Undefined \<or> truthy ?spb) \<and> ?mpj = Num (Fin 1) \<longrightarrow>
      elems (store c) (argv c) = Some (Str ''--jobs=1'' # arrayOf (heap st1) a)"
  proof (intro impI, elim conjE)
    assume a: "?spb = Undefined \<or> truthy ?spb" and b: "?mpj = Num (Fin 1)"
    from b l2 have "?limit = Fin 1" by blast
    then have "mathMin ?n ?limit = Fin 1" by simp
    then have "''--jobs='' @ numToString (mathMin ?n ?limit) = ''--jobs=1''"
      by (simp only: one) simp
    with on a show "elems (store c) (argv c) = Some (Str ''--jobs=1'' # arrayOf (heap st1) a)"
      by simp
  qed
  from s c(2) on l1 l2 off l3 show ?thesis by blast
qed

theorem make_jobs_flag_witness:
  "elems (store (last (spawned (snd (make exampleHost exampleState ''/src'' (Ref 0) Null)))))
         (argv (last (spawned (snd (make exampleHost exampleState ''/src'' (Ref 0) Null)))))
     = Some [Str ''--jobs=4'', Str ''install'']
   \<and> elems (store (last (spawned (snd (make exampleHost exampleState ''/src'' (Ref 1) Undefined)))))
         (argv (last (spawned (snd (make exampleHost exampleState ''/src'' (Ref 1) Undefined)))))
     = Some [Str ''--jobs=1'']
   \<and> elems (store (last (spawned (snd (make exampleHost exampleState ''/src'' (Ref 0) (Ref 4))))))
         (argv (last (spawned (snd (make exampleHost exampleState ''/src'' (Ref 0) (Ref 4))))))
     = Some [Str ''install'']"
proof -
  have v0: "valid (heap exampleState) (Ref 0)" by code_simp
  have v1: "valid (heap exampleState) (Ref 1)" by code_simp
  have r0: "reinterpret exampleState (Ref 0) Null = (Ref 0, Null, exampleState)" by code_simp
  have r1: "reinterpret exampleState (Ref 1) Undefined
              = (Ref 5, Ref 1, exampleState\<lparr>heap := heap exampleState @ [Arr []]\<rparr>)"
    by code_simp
  have r4: "reinterpret exampleState (Ref 0) (Ref 4) = (Ref 0, Ref 4, exampleState)" by code_simp
  have a0: "arrayOf (heap exampleState) (Ref 0) = [Str ''install'']" by code_simp
  have a1: "arrayOf (heap (exampleState\<lparr>heap := heap exampleState @ [Arr []]\<rparr>)) (Ref 5) = []" by code_simp
  have p0: "getProp (heap exampleState) Null ''supportsParallelBuild'' = Undefined"
           "getProp (heap exampleState) Null ''maxParallelJobs'' = Undefined"
    by code_simp+
  have p1: "getProp (heap exampleState) (Ref 1) ''supportsParallelBuild'' = Undefined"
           "getProp (heap exampleState) (Ref 1) ''maxParallelJobs'' = Num (Fin 1)"
    by code_simp+
  have p4: "getProp (heap exampleState) (Ref 4) ''supportsParallelBuild'' \<noteq> Undefined
              \<and> \<not> truthy (getProp (heap exampleState) (Ref 4) ''supportsParallelBuild'')"
    by code_simp
  have f: "''--jobs='' @ numToString
             (mathMin (Fin (int (cores (fst (machineInformation exampleHost exampleState))) + 1)) PosInf)
           = ''--jobs=4''"
    by code_simp
  from make_jobs_flag [OF r0 v0, of exampleHost "''/src''"] p0
  obtain c where "spawned (snd (make exampleHost exampleState ''/src'' (Ref 0) Null)) = spawned exampleState @ [c]"
    and "elems (store c) (argv c)
          = Some (Str (''--jobs='' @ numToString
               (mathMin (Fin (int (cores (fst (machineInformation exampleHost exampleState))) + 1)) PosInf))
             # arrayOf (heap exampleState) (Ref 0))"
    by auto
  then have w0: "elems (store (last (spawned (snd (make exampleHost exampleState ''/src'' (Ref 0) Null)))))
         (argv (last (spawned (snd (make exampleHost exampleState ''/src'' (Ref 0) Null)))))
     = Some [Str ''--jobs=4'', Str ''install'']"
    by (simp only: f a0 last_snoc)
  from make_jobs_flag [OF r1 v1, of exampleHost "''/src''"] p1
  obtain c where "spawned (snd (make exampleHost exampleState ''/src'' (Ref 1) Undefined)) = spawned exampleState @ [c]"
    and "elems (store c) (argv c)
          = Some (Str ''--jobs=1'' # arrayOf (heap (exampleState\<lparr>heap := heap exampleState @ [Arr []]\<rparr>)) (Ref 5))"
    by auto
  then have w1: "elems (store (last (spawned (snd (make exampleHost exampleState ''/src'' (Ref 1) Undefined)))))
         (argv (last (spawned (snd (make exampleHost exampleState ''/src'' (Ref 1) Undefined)))))
     = Some [Str ''--jobs=1'']"
    by (simp only: a1 last_snoc)
  from make_jobs_flag [OF r4 v0, of exampleHost "''/src''"] p4
  obtain c where "spawned (snd (make exampleHost exampleState ''/src'' (Ref 0) (Ref 4))) = spawned exampleState @ [c]"
    and "elems (store c) (argv c) = Some (arrayOf (heap exampleState) (Ref 0))"
    by auto
  then have w4: "elems (store (last (spawned (snd (make exampleHost exampleState ''/src'' (Ref 0) (Ref 4))))))
         (argv (last (spawned (snd (make exampleHost exampleState ''/src'' (Ref 0) (Ref 4))))))
     = Some [Str ''install'']"
    by (simp only: a0 last_snoc)
  from w0 w1 w4 show ?thesis by blast
qed


text \<open>
  C2. For every call to \<open>runWithinEnvironment\<close>, and to \<open>configure\<close>, \<open>patch\<close> and \<open>make\<close>
  which delegate to it: if the child process the call launched exits with code 0, the call
  returns the captured standard output; if it exits with another code, the call raises an
  error with the message \<open>Program exited with exit code <code>\<close> which carries the exit
  code and both captured outputs; and the call raises such an error exactly when the exit
  code is not 0.
\<close>

theorem exit_code_decides:
  assumes I: "invoke w st i = (r, st')"
    and S: "spawned st' = spawned st @ [c]"
    and E: "spawn w c = Exited code out err"
  shows "(code = 0 \<longrightarrow> r = Inr out)
       \<and> (code \<noteq> 0 \<longrightarrow> r = Inl (ExecutionError (''Program exited with exit code '' @ showInt code) code out err))
       \<and> ((\<exists>m k so se. r = Inl (ExecutionError m k so se)) \<longleftrightarrow> code \<noteq> 0)"
proof -
  from invoke_summary [of w st i]
  consider (ran) c' where "spawned (snd (invoke w st i)) = spawned st @ [c']"
      "fst (invoke w st i)
                = exitResult (spawn w c')"
    | (none) "spawned (snd (invoke w st i)) = spawned st"
    by blast
  then show ?thesis
  proof cases
    case ran
    from ran(1) S I have "c' = c" by simp
    with ran(2) I E have "r = (if code = 0 then Inr out
                       else Inl (ExecutionError (''Program exited with exit code '' @ showInt code) code out err))"
      by simp
    then show ?thesis by simp
  next
    case none
    with S I show ?thesis by simp
  qed
qed

theorem exit_code_decides_witness:
  "fst (invoke exampleHost exampleState (RunWithinEnvironment ''/src'' ''false'' Null Null))
     = Inl (ExecutionError ''Program exited with exit code 1'' 1 ''out'' ''err'')
   \<and> fst (invoke exampleHost exampleState (Patch ''/src'' ''a.patch'' (Ref 3))) = Inr ''ok''"
proof -
  let ?f = "invoke exampleHost exampleState (RunWithinEnvironment ''/src'' ''false'' Null Null)"
  let ?m = "invoke exampleHost exampleState (Patch ''/src'' ''a.patch'' (Ref 3))"
  have f1: "?f = (fst ?f, snd ?f)" by simp
  have f2: "spawned (snd ?f) = spawned exampleState @ [last (spawned (snd ?f))]" by code_simp
  have f3: "spawn exampleHost (last (spawned (snd ?f))) = Exited 1 ''out'' ''err''" by code_simp
  have m1: "?m = (fst ?m, snd ?m)" by simp
  have m2: "spawned (snd ?m) = spawned exampleState @ [last (spawned (snd ?m))]" by code_simp
  have m3: "spawn exampleHost (last (spawned (snd ?m))) = Exited 0 ''ok'' []" by code_simp
  have d: "showInt 1 = ''1''" by code_simp
  have "fst ?f = Inl (ExecutionError (''Program exited with exit code '' @ showInt 1) 1 ''out'' ''err'')"
    using exit_code_decides [OF f1 f2 f3] by simp
  moreover have "fst ?m = Inr ''ok''"
    using exit_code_decides [OF m1 m2 m3] by simp
  ultimately show ?thesis by (simp add: d)
qed


text \<open>
  C3. In a directory where at least one of the files \<open>configure\<close> and \<open>config\<close> exists,
  \<open>configure\<close> selects the first that exists in that order (so \<open>configure\<close> whenever both
  exist) and delegates to \<open>runWithinEnvironment\<close> with the directory joined with that name
  as the command, passing args and options through unchanged; that path is the program the
  runner is asked to launch.
\<close>

theorem configure_delegates:
  assumes "fileExists w (pathJoin w cwd ''configure'') \<or> fileExists w (pathJoin w cwd ''config'')"
  shows "configure w st cwd args options
           = runWithinEnvironment w st cwd
               (pathJoin w cwd (if fileExists w (pathJoin w cwd ''configure'') then ''configure'' else ''config''))
               args options
       \<and> (\<exists>c. spawned (snd (configure w st cwd args options)) = spawned st @ [c]
              \<and> prog c = pathJoin w cwd
                   (if fileExists w (pathJoin w cwd ''configure'') then ''configure'' else ''config''))"
proof -
  let ?script = "pathJoin w cwd (if fileExists w (pathJoin w cwd ''configure'') then ''configure'' else ''config'')"
  have f: "findConfigureScript w cwd = Inr ?script"
    using assms by (auto simp add: findConfigureScript_cases)
  have eq: "configure w st cwd args options = runWithinEnvironment w st cwd ?script args options"
    by (rule configure_found [OF f])
  from rwe_summary [of w st cwd ?script args options]
  have "\<exists>c. spawned (snd (runWithinEnvironment w st cwd ?script args options)) = spawned st @ [c]
          \<and> prog c = ?script"
    by blast
  with eq show ?thesis by simp
qed

theorem configure_delegates_witness:
  "configure exampleHost exampleState ''/both'' (Str ''--prefix=/opt'') Null
     = runWithinEnvironment exampleHost exampleState ''/both'' ''/both/configure'' (Str ''--prefix=/opt'') Null
   \<and> configure exampleHost exampleState ''/src'' (Str ''--prefix=/opt'') Null
     = runWithinEnvironment exampleHost exampleState ''/src'' ''/src/config'' (Str ''--prefix=/opt'') Null"
proof -
  have b: "fileExists exampleHost (pathJoin exampleHost ''/both'' ''configure'')
             \<or> fileExists exampleHost (pathJoin exampleHost ''/both'' ''config'')"
    by code_simp
  have s: "fileExists exampleHost (pathJoin exampleHost ''/src'' ''configure'')
             \<or> fileExists exampleHost (pathJoin exampleHost ''/src'' ''config'')"
    by code_simp
  have pb: "pathJoin exampleHost ''/both''
              (if fileExists exampleHost (pathJoin exampleHost ''/both'' ''configure'') then ''configure'' else ''config'')
            = ''/both/configure''"
    by code_simp
  have ps: "pathJoin exampleHost ''/src''
              (if fileExists exampleHost (pathJoin exampleHost ''/src'' ''configure'') then ''configure'' else ''config'')
            = ''/src/config''"
    by code_simp
  from configure_delegates [OF b, of exampleState "Str ''--prefix=/opt''" Null]
       configure_delegates [OF s, of exampleState "Str ''--prefix=/opt''" Null]
  show ?thesis by (simp only: pb ps)
qed


text \<open>
  C4. In a directory that holds neither a file \<open>configure\<close> nor a file \<open>config\<close>,
  \<open>configure\<close> raises an error whose message names both script names and the directory
  searched; it is neither of the runner's errors, and no child process is launched.
\<close>

theorem configure_not_found:
  assumes "\<not> fileExists w (pathJoin w cwd ''configure'')"
    and "\<not> fileExists w (pathJoin w cwd ''config'')"
  shows "fst (configure w st cwd args options)
           = Inl (Error (''Cannot find any of configure, config under '' @ cwd))
       \<and> fst (configure w st cwd args options) \<noteq> Inl SpawnError
       \<and> (\<forall>m code out err. fst (configure w st cwd args options) \<noteq> Inl (ExecutionError m code out err))
       \<and> spawned (snd (configure w st cwd args options)) = spawned st"
proof -
  have f: "findConfigureScript w cwd = Inl (Error (''Cannot find any of configure, config under '' @ cwd))"
    using assms by (simp add: findConfigureScript_cases)
  from configure_missing(1,2) [OF f, of st args options] show ?thesis by simp
qed

theorem configure_not_found_witness:
  "fst (configure exampleHost exampleState ''/empty'' (Str ''--prefix=/opt'') Null)
     = Inl (Error ''Cannot find any of configure, config under /empty'')
   \<and> spawned (snd (configure exampleHost exampleState ''/empty'' (Str ''--prefix=/opt'') Null)) = []"
proof -
  have a: "\<not> fileExists exampleHost (pathJoin exampleHost ''/empty'' ''configure'')" by code_simp
  have b: "\<not> fileExists exampleHost (pathJoin exampleHost ''/empty'' ''config'')" by code_simp
  have s: "spawned exampleState = []" by code_simp
  from configure_not_found [OF a b, of exampleState "Str ''--prefix=/opt''" Null] s
  show ?thesis by simp
qed


text \<open>
  C5. Core-count detection returns, on a Linux host, the number of lines of
  \<open>/proc/cpuinfo\<close> that match the pattern \<open>processor\<close>, white space, colon, raised to 2
  when fewer lines (or none) match, and on any other host the fixed default 2; the value
  returned, by the detection and by every later call that answers from the cache, is at
  least 2.
\<close>

theorem core_count:
  assumes "memo st = None"
  shows "cores (fst (machineInformation w st))
           = (if isPlatform w ''linux''
              then max (length (filter matchesProcessor (eachLine w ''/proc/cpuinfo''))) 2
              else 2)
       \<and> 2 \<le> cores (fst (machineInformation w st))
       \<and> 2 \<le> cores (fst (machineInformation w' (snd (machineInformation w st))))"
  unfolding machineInformation_again
  by (simp add: machineInformation_fresh [OF assms] Let_def)

theorem core_count_witness:
  "cores (fst (machineInformation exampleHost exampleState)) = 3
   \<and> cores (fst (machineInformation changedHost exampleState)) = 2
   \<and> cores (fst (machineInformation (exampleHost\<lparr>isPlatform := (\<lambda>p. False)\<rparr>) exampleState)) = 2"
proof -
  have m: "memo exampleState = None" by code_simp
  have a: "(if isPlatform exampleHost ''linux''
            then max (length (filter matchesProcessor (eachLine exampleHost ''/proc/cpuinfo''))) 2
            else 2) = 3"
    by code_simp
  have b: "(if isPlatform changedHost ''linux''
            then max (length (filter matchesProcessor (eachLine changedHost ''/proc/cpuinfo''))) 2
            else 2) = 2"
    by code_simp
  have c: "(if isPlatform (exampleHost\<lparr>isPlatform := (\<lambda>p. False)\<rparr>) ''linux''
            then max (length (filter matchesProcessor
                    (eachLine (exampleHost\<lparr>isPlatform := (\<lambda>p. False)\<rparr>) ''/proc/cpuinfo''))) 2
            else 2) = 2"
    by simp
  from core_count [OF m, of exampleHost] core_count [OF m, of changedHost]
       core_count [OF m, of "exampleHost\<lparr>isPlatform := (\<lambda>p. False)\<rparr>"]
  show ?thesis by (simp only: a b c)
qed


text \<open>
  C6. The claim: in \<open>runWithinEnvironment\<close>, \<open>configure\<close> and \<open>make\<close>, a plain object given
  as args without options is used as options, with an empty list as args, and a string or
  an array given as args is kept as args. This holds of the overload block and of what
  \<open>runWithinEnvironment\<close> and \<open>configure\<close> hand to the runner (lemma
  \<open>positional_overload\<close>). It fails for \<open>make\<close> with a string as args, which the
  documentation of \<open>make\<close> allows: on a Linux host with three processors the call
  \<open>make('/src', 'ab', null)\<close> hands the runner the list \<open>--jobs=4\<close>, \<open>a\<close>, \<open>b\<close>, in which
  the string given is no argument, whereas \<open>runWithinEnvironment\<close> with the same args
  hands the runner the string itself.
\<close>

theorem make_splits_string_args:
  "elems (store (last (spawned (snd (make exampleHost exampleState ''/src'' (Str ''ab'') Null)))))
         (argv (last (spawned (snd (make exampleHost exampleState ''/src'' (Str ''ab'') Null)))))
     = Some [Str ''--jobs=4'', Str ''a'', Str ''b'']
   \<and> Str ''ab'' \<notin> set [Str ''--jobs=4'', Str ''a'', Str ''b'']
   \<and> argv (last (spawned (snd (runWithinEnvironment exampleHost exampleState ''/src'' ''make''
                                 (Str ''ab'') Null))))
     = Str ''ab''"
proof -
  let ?ob = "withDefaults (entriesOf (heap exampleState) Null)
               [(''supportsParallelBuild'', Bool True), (''maxParallelJobs'', Num PosInf)]"
  have R: "reinterpret exampleState (Str ''ab'') Null = (Str ''ab'', Null, exampleState)"
    by (simp add: reinterpret_cases)
  have sp: "truthy (field ?ob ''supportsParallelBuild'')" by code_simp
  have mp: "field ?ob ''maxParallelJobs'' = Num PosInf" by code_simp
  have f: "''--jobs='' @ numToString
             (mathMin (Fin (int (cores (fst (machineInformation exampleHost exampleState))) + 1)) PosInf)
           = ''--jobs=4''"
    by code_simp
  from make_effect [OF R, of exampleHost "''/src''"]
  obtain c h' h'' where c:
    "snd (make exampleHost exampleState ''/src'' (Str ''ab'') Null)
       = (if truthy (field ?ob ''supportsParallelBuild'')
          then snd (machineInformation exampleHost exampleState) else exampleState)
           \<lparr>heap := store c, spawned := spawned exampleState @ [c]\<rparr>"
    "elems (store c) (argv c) =
         Some ((if truthy (field ?ob ''supportsParallelBuild'')
                then [Str (''--jobs='' @ numToString
                        (mathMin (Fin (int (cores (fst (machineInformation exampleHost exampleState))) + 1))
                                 (toNumber exampleHost h' (field ?ob ''maxParallelJobs''))))]
                else []) @ arrayOf h'' (Str ''ab''))"
    by blast
  have l: "last (spawned (snd (make exampleHost exampleState ''/src'' (Str ''ab'') Null))) = c"
    by (simp add: c(1))
  have a: "arrayOf h'' (Str ''ab'') = [Str ''a'', Str ''b'']"
    by (simp add: arrayOf_def)
  have "elems (store c) (argv c)
          = Some [Str (''--jobs='' @ numToString
               (mathMin (Fin (int (cores (fst (machineInformation exampleHost exampleState))) + 1)) PosInf)),
             Str ''a'', Str ''b'']"
    using c(2) sp by (simp only: mp toNumber_Num a if_True append.simps)
  then have m: "elems (store c) (argv c) = Some [Str ''--jobs=4'', Str ''a'', Str ''b'']"
    by (simp only: f)
  have n: "Str ''ab'' \<notin> set [Str ''--jobs=4'', Str ''a'', Str ''b'']" by simp
  have R': "reinterpret exampleState (Str ''ab'') Null = (Str ''ab'', Null, exampleState)"
    by (rule R)
  from rwe_effect [OF R', of exampleHost "''/src''" "''make''"]
  obtain d where d:
    "snd (runWithinEnvironment exampleHost exampleState ''/src'' ''make'' (Str ''ab'') Null)
       = exampleState\<lparr>heap := store d, spawned := spawned exampleState @ [d]\<rparr>"
    "argv d = Str ''ab''"
    by auto
  have r: "argv (last (spawned (snd (runWithinEnvironment exampleHost exampleState ''/src'' ''make''
                                 (Str ''ab'') Null)))) = Str ''ab''"
    by (simp add: d)
  from m n r show ?thesis by (simp only: l) simp
qed


text \<open>
  C7. For every working directory, patch file and options, \<open>patch\<close> delegates to the runner
  with the command \<open>patch\<close> and exactly three arguments, in this order: \<open>-p\<close> followed by
  the patch level, \<open>-i\<close>, and the patch file. The patch level is \<open>options.patchLevel\<close> when
  it is given and 0 otherwise, rendered as a template literal renders it (for a level that
  is not itself an array or an object the rendering does not depend on the store).
\<close>

theorem patch_arguments:
  "\<exists>c level. spawned (snd (patch w st cwd patchFile options)) = spawned st @ [c]
       \<and> prog c = ''patch''
       \<and> elems (store c) (argv c) = Some [Str (''-p'' @ level), Str ''-i'', Str patchFile]
       \<and> (getProp (heap st) options ''patchLevel'' = Undefined \<longrightarrow> level = ''0'')
       \<and> (\<not> reference (getProp (heap st) options ''patchLevel'')
            \<and> getProp (heap st) options ''patchLevel'' \<noteq> Undefined
            \<longrightarrow> level = toString (heap st) (getProp (heap st) options ''patchLevel''))"
proof -
  let ?given = "getProp (heap st) options ''patchLevel''"
  let ?lvl = "if ?given = Undefined then Num (Fin 0) else ?given"
  from patch_effect [of w st cwd patchFile options]
  obtain c h' where c:
    "snd (patch w st cwd patchFile options) = st\<lparr>heap := store c, spawned := spawned st @ [c]\<rparr>"
    "prog c = ''patch''"
    "elems (store c) (argv c) =
            Some [Str (''-p'' @ toString h'
                    (field (withDefaults (entriesOf (heap st) options) [(''patchLevel'', Num (Fin 0))])
                       ''patchLevel'')),
                  Str ''-i'', Str patchFile]"
    by blast
  have "field (withDefaults (entriesOf (heap st) options) [(''patchLevel'', Num (Fin 0))]) ''patchLevel'' = ?lvl"
    by (simp only: field_patchLevel getProp_field)
  with c(3) have e: "elems (store c) (argv c) = Some [Str (''-p'' @ toString h' ?lvl), Str ''-i'', Str patchFile]"
    by simp
  have z: "showInt 0 = ''0''" by code_simp
  have d: "?given = Undefined \<longrightarrow> toString h' ?lvl = ''0''"
    by (simp add: toString_def z)
  have g: "\<not> reference ?given \<and> ?given \<noteq> Undefined \<longrightarrow> toString h' ?lvl = toString (heap st) ?given"
    using toString_no_reference [of ?given h' "heap st"] by simp
  have s: "spawned (snd (patch w st cwd patchFile options)) = spawned st @ [c]"
    by (simp add: c(1))
  from s c(2) e d g show ?thesis by blast
qed

theorem patch_arguments_witness:
  "prog (last (spawned (snd (patch exampleHost exampleState ''/src'' ''fix.patch'' (Ref 3))))) = ''patch''
   \<and> elems (store (last (spawned (snd (patch exampleHost exampleState ''/src'' ''fix.patch'' (Ref 3))))))
        (argv (last (spawned (snd (patch exampleHost exampleState ''/src'' ''fix.patch'' (Ref 3))))))
       = Some [Str ''-p1'', Str ''-i'', Str ''fix.patch'']
   \<and> elems (store (last (spawned (snd (patch exampleHost exampleState ''/src'' ''fix.patch'' Null)))))
        (argv (last (spawned (snd (patch exampleHost exampleState ''/src'' ''fix.patch'' Null)))))
       = Some [Str ''-p0'', Str ''-i'', Str ''fix.patch'']"
proof -
  have g: "\<not> reference (getProp (heap exampleState) (Ref 3) ''patchLevel'')
             \<and> getProp (heap exampleState) (Ref 3) ''patchLevel'' \<noteq> Undefined"
    by code_simp
  have n: "getProp (heap exampleState) Null ''patchLevel'' = Undefined" by code_simp
  have lg: "toString (heap exampleState) (getProp (heap exampleState) (Ref 3) ''patchLevel'') = ''1''"
    by code_simp
  from patch_arguments [of exampleHost exampleState "''/src''" "''fix.patch''" "Ref 3"] g lg
  have a: "prog (last (spawned (snd (patch exampleHost exampleState ''/src'' ''fix.patch'' (Ref 3))))) = ''patch''
   \<and> elems (store (last (spawned (snd (patch exampleHost exampleState ''/src'' ''fix.patch'' (Ref 3))))))
        (argv (last (spawned (snd (patch exampleHost exampleState ''/src'' ''fix.patch'' (Ref 3))))))
       = Some [Str ''-p1'', Str ''-i'', Str ''fix.patch'']"
    by auto
  from patch_arguments [of exampleHost exampleState "''/src''" "''fix.patch''" Null] n
  have b: "elems (store (last (spawned (snd (patch exampleHost exampleState ''/src'' ''fix.patch'' Null)))))
        (argv (last (spawned (snd (patch exampleHost exampleState ''/src'' ''fix.patch'' Null)))))
       = Some [Str ''-p0'', Str ''-i'', Str ''fix.patch'']"
    by auto
  from a b show ?thesis by blast
qed


text \<open>
  C8. Host-information detection is memoized: once \<open>_machineInformation\<close> has returned,
  every later call, on whatever host state, returns the same value and leaves the state as
  it is, so \<open>/proc/cpuinfo\<close> is read at most once, and only by a call that finds the cache
  empty. Once the cache is filled no exported function changes it or reads the file again,
  and \<open>make\<close> does the same whatever \<open>/proc/cpuinfo\<close> holds by then.
\<close>

theorem machineInformation_memoized:
  "machineInformation w' (snd (machineInformation w st)) = machineInformation w st
   \<and> memo (snd (machineInformation w st)) = Some (fst (machineInformation w st))
   \<and> reads (snd (machineInformation w st))
       = (if memo st = None \<and> isPlatform w ''linux'' then reads st @ [''/proc/cpuinfo''] else reads st)
   \<and> (memo st \<noteq> None \<longrightarrow>
         memo (snd (invoke w st i)) = memo st
       \<and> reads (snd (invoke w st i)) = reads st
       \<and> make (w\<lparr>eachLine := f\<rparr>) st cwd args options = make w st cwd args options)"
proof -
  have r: "reads (snd (machineInformation w st))
       = (if memo st = None \<and> isPlatform w ''linux'' then reads st @ [''/proc/cpuinfo''] else reads st)"
  proof (cases "memo st")
    case None
    then show ?thesis by (simp add: machineInformation_fresh Let_def)
  next
    case (Some i)
    then show ?thesis by (simp add: machineInformation_cached)
  qed
  have c: "memo st \<noteq> None \<longrightarrow>
         memo (snd (invoke w st i)) = memo st
       \<and> reads (snd (invoke w st i)) = reads st
       \<and> make (w\<lparr>eachLine := f\<rparr>) st cwd args options = make w st cwd args options"
    using invoke_summary [of w st i]
      make_cached_world [where st = st and w = w and f = f and cwd = cwd and args = args and options = options]
    by auto
  from r c show ?thesis
    by (simp only: machineInformation_again machineInformation_memo)
qed

theorem machineInformation_memoized_witness:
  "fst (machineInformation exampleHost exampleState) = \<lparr>cores = 3\<rparr>
   \<and> fst (machineInformation changedHost (snd (machineInformation exampleHost exampleState))) = \<lparr>cores = 3\<rparr>
   \<and> reads (snd (machineInformation changedHost (snd (machineInformation exampleHost exampleState))))
       = [''/proc/cpuinfo'']
   \<and> make changedHost (snd (machineInformation exampleHost exampleState)) ''/src'' (Ref 0) Null
       = make exampleHost (snd (machineInformation exampleHost exampleState)) ''/src'' (Ref 0) Null"
proof -
  let ?st1 = "snd (machineInformation exampleHost exampleState)"
  have v: "fst (machineInformation exampleHost exampleState) = \<lparr>cores = 3\<rparr>" by code_simp
  have r: "reads ?st1 = [''/proc/cpuinfo'']" by code_simp
  have m: "memo ?st1 \<noteq> None" by code_simp
  have "machineInformation changedHost ?st1 = machineInformation exampleHost exampleState"
    using machineInformation_memoized [of changedHost exampleHost exampleState] by blast
  moreover have "make changedHost ?st1 ''/src'' (Ref 0) Null = make exampleHost ?st1 ''/src'' (Ref 0) Null"
    using machineInformation_memoized [of exampleHost exampleHost ?st1] m
    unfolding changedHost_def by blast
  ultimately show ?thesis using v r by simp
qed


text \<open>
  C9. No call to \<open>runWithinEnvironment\<close>, \<open>configure\<close>, \<open>patch\<close> or \<open>make\<close> mutates the
  argument list or the environment overlay of its caller: whether the call returns or
  raises, the store afterwards is the store before it followed by the cells the call
  allocated, so every array and every object of the caller holds what it held before.
\<close>

theorem caller_data_not_mutated:
  assumes I: "invoke w st i = (r, st')"
  shows "(\<exists>cells. heap st' = heap st @ cells)
       \<and> (\<forall>v xs. elems (heap st) v = Some xs \<longrightarrow> elems (heap st') v = Some xs)
       \<and> (\<forall>v kvs. entries (heap st) v = Some kvs \<longrightarrow> entries (heap st') v = Some kvs)"
proof -
  from invoke_summary [of w st i] I obtain cs where h: "heap st' = heap st @ cs"
    by auto
  have "elems (heap st') v = Some xs" if "elems (heap st) v = Some xs" for v xs
    using that elems_append [OF elems_valid [OF that]] by (simp add: h)
  moreover have "entries (heap st') v = Some kvs" if "entries (heap st) v = Some kvs" for v kvs
    using that entries_append [OF entries_valid [OF that]] by (simp add: h)
  ultimately show ?thesis using h by blast
qed

theorem caller_data_not_mutated_witness:
  "elems (heap exampleState) (Ref 0) = Some [Str ''install'']
   \<and> elems (heap (snd (invoke exampleHost exampleState (Make ''/src'' (Ref 0) (Ref 3))))) (Ref 0)
       = Some [Str ''install'']
   \<and> entries (heap exampleState) (Ref 2) = Some [(''TEST'', Num (Fin 1))]
   \<and> entries (heap (snd (invoke exampleHost exampleState (Make ''/src'' (Ref 0) (Ref 3))))) (Ref 2)
       = Some [(''TEST'', Num (Fin 1))]"
proof -
  let ?m = "invoke exampleHost exampleState (Make ''/src'' (Ref 0) (Ref 3))"
  have m1: "?m = (fst ?m, snd ?m)" by simp
  have a: "elems (heap exampleState) (Ref 0) = Some [Str ''install'']" by code_simp
  have e: "entries (heap exampleState) (Ref 2) = Some [(''TEST'', Num (Fin 1))]" by code_simp
  from caller_data_not_mutated [OF m1] a e show ?thesis by blast
qed


text \<open>
  C10. In \<open>runWithinEnvironment\<close> an args parameter that is null is treated exactly like
  one that is omitted (undefined): the two calls return the same result and leave the same
  state, and the argument list handed to the runner is the empty list.
\<close>

theorem null_args_as_omitted:
  "runWithinEnvironment w st cwd cmd Null options = runWithinEnvironment w st cwd cmd Undefined options
   \<and> (\<exists>c. spawned (snd (runWithinEnvironment w st cwd cmd Null options)) = spawned st @ [c]
          \<and> elems (store c) (argv c) = Some [])"
proof
  have n: "reinterpret st Null options = (Null, options, st)"
    by (simp add: reinterpret_cases entries_def)
  have u: "reinterpret st Undefined options = (Undefined, options, st)"
    by (simp add: reinterpret_cases entries_def)
  show "runWithinEnvironment w st cwd cmd Null options = runWithinEnvironment w st cwd cmd Undefined options"
    by (simp add: rwe_plain [OF n] rwe_plain [OF u])
  from rwe_effect [OF n, of w cwd cmd]
  obtain c where "snd (runWithinEnvironment w st cwd cmd Null options)
         = st\<lparr>heap := store c, spawned := spawned st @ [c]\<rparr>"
    and "elems (store c) (argv c) = Some []"
    by blast
  then show "\<exists>c. spawned (snd (runWithinEnvironment w st cwd cmd Null options)) = spawned st @ [c]
          \<and> elems (store c) (argv c) = Some []"
    by (intro exI [of _ c]) simp
qed

theorem null_args_as_omitted_witness:
  "runWithinEnvironment exampleHost exampleState ''/src'' ''pwd'' Null Null
     = runWithinEnvironment exampleHost exampleState ''/src'' ''pwd'' Undefined Null
   \<and> elems (store (last (spawned (snd (runWithinEnvironment exampleHost exampleState ''/src'' ''pwd'' Null Null)))))
        (argv (last (spawned (snd (runWithinEnvironment exampleHost exampleState ''/src'' ''pwd'' Null Null))))) = Some []"
  using null_args_as_omitted [of exampleHost exampleState "''/src''" "''pwd''" Null]
  by auto

end
